theory Spec2Isabelle
  imports Complex_Main "HOL-Library.AList"
begin

section \<open>The Go library, as far as the desktop shell calls it\<close>

text \<open>
  The shell is one Go file. A Go \<open>string\<close> is a sequence of bytes, which is what
  \<^typ>\<open>string\<close> is here. An \<open>error\<close> value is its message; a function that returns only
  an \<open>error\<close> returns \<^typ>\<open>string option\<close>, \<^term>\<open>None\<close> standing for \<open>nil\<close>.

  The functions of \<open>path/filepath\<close>, the Unicode case mappings of \<open>strings\<close> and the
  content sniffing of \<open>net/http\<close> depend on the operating system, the Go release and the
  Unicode tables. They are not part of the repository, so the model takes them as the
  fields of a \<open>platform\<close>, and what is proved about the program is proved for every
  platform. The section \<open>A Windows platform\<close> gives one concrete platform to run the model
  on.
\<close>

type_synonym error = string

record platform =
  GOOS :: string
  Clean :: "string \<Rightarrow> string"
  Dir :: "string \<Rightarrow> string"
  Base :: "string \<Rightarrow> string"
  Ext :: "string \<Rightarrow> string"
  Join :: "string list \<Rightarrow> string"
  FromSlash :: "string \<Rightarrow> string"
  ToLower :: "string \<Rightarrow> string"
  EqualFold :: "string \<Rightarrow> string \<Rightarrow> bool"
  DetectContentType :: "string \<Rightarrow> string"

text \<open>
  What the headless browser is asked to do by one \<open>chromedp.Run\<close>: load the page at a
  URL and either capture it at a viewport width or print it to PDF at a scale.
\<close>

datatype render_job = FullScreenshot string int | PrintToPDF string real

text \<open>
  The file system answers each call with success or an error. A \<open>world\<close> holds the
  answers the operating system gives while one call of the program runs; two calls in
  sequence may each see a different world.
\<close>

record world =
  os_Open :: "string \<Rightarrow> error option"
  os_Create :: "string \<Rightarrow> error option"
  os_MkdirAll :: "string \<Rightarrow> error option"
  os_WriteFile :: "string \<Rightarrow> error option"
  io_Copy :: "string \<Rightarrow> error option"
  os_ReadFile :: "string \<Rightarrow> error + string"
  os_Stat :: "string \<Rightarrow> error + bool"
  filepath_Abs :: "string \<Rightarrow> string"
  net_Listen :: "string \<Rightarrow> error option"
  http_Post :: "string \<Rightarrow> error option"
  GetOpenFileName :: "nat \<times> string"
  GetSaveFileName :: "string \<Rightarrow> string \<Rightarrow> nat \<times> string"
  chromedp_Run :: "render_job \<Rightarrow> error + string"

text \<open>
  \<open>os_Stat\<close> answers with \<open>info.IsDir()\<close>; \<open>filepath_Abs\<close> is \<open>filepath.Abs\<close> with its error
  dropped, as the program drops it; \<open>io_Copy\<close> is indexed by the path of the file copied
  into; \<open>GetOpenFileName\<close> and \<open>GetSaveFileName\<close> give the return value of the native
  dialog call and the text it left in the file buffer.
\<close>

subsection \<open>strings, encoding/hex, encoding/base64, net/url\<close>

definition HasPrefix :: "string \<Rightarrow> string \<Rightarrow> bool" where
  "HasPrefix s pre = (take (length pre) s = pre)"

definition TrimSuffix :: "string \<Rightarrow> string \<Rightarrow> string" where
  "TrimSuffix s suffix =
     (if length suffix \<le> length s \<and> drop (length s - length suffix) s = suffix
      then take (length s - length suffix) s else s)"

text \<open>\<open>strings.Replace(s, old, new, 1)\<close>: the first occurrence only.\<close>

fun Replace1 :: "string \<Rightarrow> string \<Rightarrow> string \<Rightarrow> string" where
  "Replace1 [] old new = (if old = [] then new else [])"
| "Replace1 (c # cs) old new =
     (if take (length old) (c # cs) = old then new @ drop (length old) (c # cs)
      else c # Replace1 cs old new)"

definition hextable :: string where
  "hextable = ''0123456789abcdef''"

definition hex_EncodeToString :: "string \<Rightarrow> string" where
  "hex_EncodeToString src =
     concat (map (\<lambda>b. [hextable ! ((of_char b :: nat) div 16),
                        hextable ! ((of_char b :: nat) mod 16)]) src)"

definition encodeStd :: string where
  "encodeStd = ''ABCDEFGHIJKLMNOPQRSTUVWXYZabcdefghijklmnopqrstuvwxyz0123456789+/''"

text \<open>
  Base64 works on bits: three bytes are four groups of six bits, each group the index of
  a character of the alphabet. The bits of a byte are listed from the most significant.
\<close>

fun bits_of :: "char \<Rightarrow> bool list" where
  "bits_of (Char b0 b1 b2 b3 b4 b5 b6 b7) = [b7, b6, b5, b4, b3, b2, b1, b0]"

definition nat_of_bits :: "bool list \<Rightarrow> nat" where
  "nat_of_bits bs = foldl (\<lambda>n b. 2 * n + (if b then 1 else 0)) 0 bs"

fun sextets :: "bool list \<Rightarrow> string" where
  "sextets (a # b # c # d # e # f # rest) =
     (encodeStd ! nat_of_bits [a, b, c, d, e, f]) # sextets rest"
| "sextets bs = []"

fun EncodeToString :: "string \<Rightarrow> string" where
  "EncodeToString (a # b # c # rest) =
     sextets (bits_of a @ bits_of b @ bits_of c) @ EncodeToString rest"
| "EncodeToString [a, b] = sextets (bits_of a @ bits_of b @ [False, False]) @ ''=''"
| "EncodeToString [a] = sextets (bits_of a @ [False, False, False, False]) @ ''==''"
| "EncodeToString [] = []"

definition decodeMap :: "char \<Rightarrow> nat option" where
  "decodeMap c =
     (let i = length (takeWhile (\<lambda>x. x \<noteq> c) encodeStd) in if i < 64 then Some i else None)"

definition bits6 :: "nat \<Rightarrow> bool list" where
  "bits6 n = [n div 32 mod 2 = 1, n div 16 mod 2 = 1, n div 8 mod 2 = 1,
              n div 4 mod 2 = 1, n div 2 mod 2 = 1, n mod 2 = 1]"

fun octets :: "bool list \<Rightarrow> string" where
  "octets (b7 # b6 # b5 # b4 # b3 # b2 # b1 # b0 # rest) =
     Char b0 b1 b2 b3 b4 b5 b6 b7 # octets rest"
| "octets bs = []"

text \<open>
  \<open>base64.StdEncoding.DecodeString\<close>: carriage returns and line feeds are skipped wherever
  they stand; the rest is quanta of four characters of the alphabet, the last one perhaps
  padded with one or two \<open>=\<close>; anything else is a \<open>CorruptInputError\<close>. Bits left over
  in a padded quantum are dropped, as the standard (non-strict) encoding does.
\<close>

fun decode_quanta :: "string \<Rightarrow> string option" where
  "decode_quanta (a # b # c # d # rest) =
     (case (decodeMap a, decodeMap b) of
        (Some x, Some y) \<Rightarrow>
          (if c = CHR ''='' then
             (if d = CHR ''='' \<and> rest = [] then Some (octets (bits6 x @ bits6 y)) else None)
           else
             (case decodeMap c of
                None \<Rightarrow> None
              | Some z \<Rightarrow>
                  (if d = CHR ''='' then
                     (if rest = [] then Some (octets (bits6 x @ bits6 y @ bits6 z)) else None)
                   else
                     (case decodeMap d of
                        None \<Rightarrow> None
                      | Some w \<Rightarrow>
                          map_option
                            ((@) (octets (bits6 x @ bits6 y @ bits6 z @ bits6 w)))
                            (decode_quanta rest)))))
      | _ \<Rightarrow> None)"
| "decode_quanta [] = Some []"
| "decode_quanta (a # rest) = None"

definition DecodeString :: "string \<Rightarrow> string option" where
  "DecodeString s = decode_quanta (filter (\<lambda>c. c \<noteq> CHR 0x0D \<and> c \<noteq> CHR 0x0A) s)"

definition unhex :: "char \<Rightarrow> nat option" where
  "unhex c =
     (let n = (of_char c :: nat) in
      if 48 \<le> n \<and> n \<le> 57 then Some (n - 48)
      else if 97 \<le> n \<and> n \<le> 102 then Some (n - 87)
      else if 65 \<le> n \<and> n \<le> 70 then Some (n - 55)
      else None)"

text \<open>\<open>url.QueryUnescape\<close>: \<open>%XX\<close> is a byte, \<open>+\<close> a space; a malformed escape is an error.\<close>

fun QueryUnescape :: "string \<Rightarrow> string option" where
  "QueryUnescape [] = Some []"
| "QueryUnescape (c # cs) =
     (if c = CHR ''%'' then
        (case cs of
           h1 # h2 # rest \<Rightarrow>
             (case (unhex h1, unhex h2) of
                (Some a, Some b) \<Rightarrow> map_option ((#) (char_of (a * 16 + b))) (QueryUnescape rest)
              | _ \<Rightarrow> None)
         | _ \<Rightarrow> None)
      else map_option ((#) (if c = CHR ''+'' then CHR '' '' else c)) (QueryUnescape cs))"

subsection \<open>regexp and the case folding of ASCII\<close>

definition lower_byte :: "char \<Rightarrow> char" where
  "lower_byte c =
     (if 65 \<le> (of_char c :: nat) \<and> (of_char c :: nat) \<le> 90
      then char_of ((of_char c :: nat) + 32) else c)"

text \<open>The class \<open>\s\<close> of Go's regexp: tab, line feed, form feed, carriage return, space.\<close>

definition isSpace :: "char \<Rightarrow> bool" where
  "isSpace c = (c = CHR 0x09 \<or> c = CHR 0x0A \<or> c = CHR 0x0C \<or> c = CHR 0x0D \<or> c = CHR 0x20)"

text \<open>
  One character of a pattern under the flag \<open>(?i)\<close>, read off the input: the letter in
  either case, and the other members of its Unicode folding orbit, which for the ASCII
  letters are U+017F (long s, bytes C5 BF) for \<open>s\<close> and U+212A (Kelvin sign, bytes E2 84
  AA) for \<open>k\<close>. The result is the input left after the character.
\<close>

fun match_fold_char :: "char \<Rightarrow> string \<Rightarrow> string option" where
  "match_fold_char p [] = None"
| "match_fold_char p (x # xs) =
     (if lower_byte x = lower_byte p then Some xs
      else if lower_byte p = CHR ''s'' \<and> x = CHR 0xC5 \<and> take 1 xs = [CHR 0xBF] then Some (drop 1 xs)
      else if lower_byte p = CHR ''k'' \<and> x = CHR 0xE2 \<and> take 2 xs = [CHR 0x84, CHR 0xAA]
        then Some (drop 2 xs)
      else None)"

fun match_fold :: "string \<Rightarrow> string \<Rightarrow> string option" where
  "match_fold [] s = Some s"
| "match_fold (p # ps) s =
     (case match_fold_char p s of None \<Rightarrow> None | Some r \<Rightarrow> match_fold ps r)"

section \<open>File lock registry\<close>

text \<open>
  \<open>activeFileHandles\<close> is the Go map from lock key to \<open>*os.File\<close>, kept as an association
  list read with \<^const>\<open>map_of\<close>. \<open>openFiles\<close> is the part of the process's handle table
  that the registry has opened and not yet closed: \<open>os.Open\<close> adds a handle with a fresh
  descriptor, \<open>f.Close()\<close> removes it.
\<close>

record os_File =
  file_fd :: nat
  file_name :: string

record lock_registry =
  activeFileHandles :: "(string \<times> os_File) list"
  openFiles :: "os_File list"
  nextFd :: nat

definition no_locks :: lock_registry where
  "no_locks = \<lparr>activeFileHandles = [], openFiles = [], nextFd = 0\<rparr>"

definition getLockKey :: "platform \<Rightarrow> string \<Rightarrow> string" where
  "getLockKey P path =
     (if GOOS P = ''windows'' then ToLower P (Clean P path) else Clean P path)"

definition lockFile :: "platform \<Rightarrow> world \<Rightarrow> string \<Rightarrow> lock_registry \<Rightarrow> lock_registry" where
  "lockFile P W path s =
     (let key = getLockKey P path in
      if map_of (activeFileHandles s) key \<noteq> None then s
      else (case os_Open W path of
              None \<Rightarrow>
                (let f = \<lparr>file_fd = nextFd s, file_name = path\<rparr> in
                 s\<lparr>activeFileHandles := AList.update key f (activeFileHandles s),
                   openFiles := f # openFiles s,
                   nextFd := Suc (nextFd s)\<rparr>)
            | Some err \<Rightarrow> s))"

definition unlockFile :: "platform \<Rightarrow> string \<Rightarrow> lock_registry \<Rightarrow> lock_registry" where
  "unlockFile P path s =
     (let key = getLockKey P path in
      case map_of (activeFileHandles s) key of
        Some f \<Rightarrow>
          s\<lparr>activeFileHandles := AList.delete key (activeFileHandles s),
            openFiles := removeAll f (openFiles s)\<rparr>
      | None \<Rightarrow> s)"

definition unlockAll :: "lock_registry \<Rightarrow> lock_registry" where
  "unlockAll s =
     fold (\<lambda>(key, f) t.
             t\<lparr>activeFileHandles := AList.delete key (activeFileHandles t),
               openFiles := removeAll f (openFiles t)\<rparr>)
       (activeFileHandles s) s"

text \<open>
  The registry states the program can be in: it starts empty, and every request and the
  shutdown path change it only through the three operations.
\<close>

inductive reachable :: "platform \<Rightarrow> lock_registry \<Rightarrow> bool" for P :: platform where
  reach_init: "reachable P no_locks"
| reach_lock: "reachable P s \<Longrightarrow> reachable P (lockFile P W path s)"
| reach_unlock: "reachable P s \<Longrightarrow> reachable P (unlockFile P path s)"
| reach_unlockAll: "reachable P s \<Longrightarrow> reachable P (unlockAll s)"

text \<open>The open handles on files whose canonical path is \<open>key\<close>.\<close>

definition handles_for :: "platform \<Rightarrow> string \<Rightarrow> lock_registry \<Rightarrow> os_File list" where
  "handles_for P key s = filter (\<lambda>f. getLockKey P (file_name f) = key) (openFiles s)"

definition locked :: "platform \<Rightarrow> string \<Rightarrow> lock_registry \<Rightarrow> bool" where
  "locked P path s = (map_of (activeFileHandles s) (getLockKey P path) \<noteq> None)"

definition registry_inv :: "platform \<Rightarrow> lock_registry \<Rightarrow> bool" where
  "registry_inv P s =
     (distinct (map fst (activeFileHandles s)) \<and> distinct (openFiles s) \<and>
      (\<forall>f. (f \<in> set (openFiles s)) = (\<exists>k. map_of (activeFileHandles s) k = Some f)) \<and>
      (\<forall>k f. map_of (activeFileHandles s) k = Some f \<longrightarrow>
             k = getLockKey P (file_name f) \<and> file_fd f < nextFd s))"

section \<open>Shared state and HTTP responses\<close>

record FileData =
  FileName :: string
  Data :: string

record ScreenshotRequest =
  Html :: string
  Width :: int

record PdfExportRequest =
  pdf_Html :: string
  pdf_Path :: string
  pdf_Scale :: real

text \<open>
  The three process-wide maps. \<open>fileStore\<close> and \<open>renderStore\<close> are Go maps read, written and
  deleted from by key only.
\<close>

record server =
  fileStore :: "string \<rightharpoonup> FileData"
  renderStore :: "string \<rightharpoonup> string"
  locks :: lock_registry

definition server_init :: server where
  "server_init = \<lparr>fileStore = Map.empty, renderStore = Map.empty, locks = no_locks\<rparr>"

text \<open>
  A response is its status code and its body; headers are left out. A body is raw bytes,
  or the JSON encoding of a \<open>DialogResponse\<close> (\<open>{"path": ...}\<close>) or of the map with the one
  key \<open>error\<close>.
\<close>

datatype body = Raw string | DialogResponse string | ErrorJson string

record response =
  status :: nat
  content :: body

text \<open>\<open>http.Error\<close> writes the message and a line feed under the given status.\<close>

definition http_Error :: "string \<Rightarrow> nat \<Rightarrow> response" where
  "http_Error msg code = \<lparr>status = code, content = Raw (msg @ [CHR 0x0A])\<rparr>"

definition http_NotFound :: response where
  "http_NotFound = http_Error ''404 page not found'' 404"

text \<open>A URL query, \<open>url.Values\<close>: each key has a list of values.\<close>

type_synonym query = "string \<Rightarrow> string list"

definition Get :: "query \<Rightarrow> string \<Rightarrow> string" where
  "Get q key = (case q key of [] \<Rightarrow> [] | v # vs \<Rightarrow> v)"

text \<open>\<open>APP_PORT\<close>, 58888, as \<open>%d\<close> prints it.\<close>

definition APP_PORT :: string where
  "APP_PORT = ''58888''"

definition targetUrl :: string where
  "targetUrl = ''http://127.0.0.1:'' @ APP_PORT"

text \<open>
  \<open>generateID\<close> hex-encodes a buffer of eight zero bytes after \<open>rand.Read\<close> has filled it;
  \<open>rnd\<close> is what \<open>rand.Read\<close> wrote.
\<close>

definition generateID :: "string \<Rightarrow> string" where
  "generateID rnd = hex_EncodeToString (take 8 (rnd @ replicate 8 (CHR 0x00)))"

text \<open>What a call does to the outside, in the order it does it.\<close>

datatype effect =
    OpenDefaultBrowser string
  | HttpPost string string FileData nat
  | Serve
  | RunTrayApp string
  | Mkdir string
  | Created string
  | Written string string

section \<open>Inlining local images\<close>

text \<open>
  \<open>imgTagRe\<close> is \<open>(?i)<img\s+[^>]*>\<close>. A match at the head of \<open>s\<close> is \<open><img\<close> in any case, one
  white-space character, and everything up to the next \<open>>\<close>. The result is the match
  and the input after it.
\<close>

definition match_imgTag :: "string \<Rightarrow> (string \<times> string) option" where
  "match_imgTag s =
     (case match_fold ''<img'' s of
        None \<Rightarrow> None
      | Some r \<Rightarrow>
          (case r of
             [] \<Rightarrow> None
           | c # r' \<Rightarrow>
               if isSpace c then
                 (case dropWhile (\<lambda>x. x \<noteq> CHR ''>'') r' of
                    [] \<Rightarrow> None
                  | g # rest \<Rightarrow> Some (take (length s - length rest) s, rest))
               else None))"

text \<open>
  \<open>srcRe\<close> is \<open>(?i)(\s|^)src\s*=\s*("([^"]*)"|'([^']*)')\<close>. \<open>match_src_attr\<close> matches the
  pattern after its first group at the head of \<open>s\<close> and gives the text matched, group 3
  and group 4, a group that took no part being empty.
\<close>

definition match_src_attr :: "string \<Rightarrow> (string \<times> string \<times> string) option" where
  "match_src_attr s =
     (case match_fold ''src'' s of
        None \<Rightarrow> None
      | Some r1 \<Rightarrow>
          (case dropWhile isSpace r1 of
             [] \<Rightarrow> None
           | e # r2 \<Rightarrow>
               if e = CHR ''='' then
                 (case dropWhile isSpace r2 of
                    [] \<Rightarrow> None
                  | q # r3 \<Rightarrow>
                      if q = CHR 0x22 \<or> q = CHR 0x27 then
                        (case dropWhile (\<lambda>x. x \<noteq> q) r3 of
                           [] \<Rightarrow> None
                         | q' # rest \<Rightarrow>
                             Some (take (length s - length rest) s,
                                   if q = CHR 0x22 then takeWhile (\<lambda>x. x \<noteq> q) r3 else [],
                                   if q = CHR 0x27 then takeWhile (\<lambda>x. x \<noteq> q) r3 else []))
                      else None)
               else None))"

text \<open>
  \<open>srcRe.FindStringSubmatch\<close>: the leftmost match, and at one position the alternative
  \<open>\s\<close> before \<open>^\<close>. The result is the groups 0, 1, 3 and 4.
\<close>

fun find_src :: "bool \<Rightarrow> string \<Rightarrow> (string \<times> string \<times> string \<times> string) option" where
  "find_src at_start [] = None"
| "find_src at_start (c # cs) =
     (case (if isSpace c then match_src_attr cs else None) of
        Some (m, g3, g4) \<Rightarrow> Some (c # m, [c], g3, g4)
      | None \<Rightarrow>
          (case (if at_start then match_src_attr (c # cs) else None) of
             Some (m, g3, g4) \<Rightarrow> Some (m, [], g3, g4)
           | None \<Rightarrow> find_src False cs))"

text \<open>The function handed to \<open>ReplaceAllStringFunc\<close>, applied to one matched tag.\<close>

definition inline_tag :: "platform \<Rightarrow> world \<Rightarrow> string \<Rightarrow> string \<Rightarrow> string" where
  "inline_tag P W baseDir imgTag =
     (case find_src True imgTag of
        None \<Rightarrow> imgTag
      | Some (match0, match1, match3, match4) \<Rightarrow>
          (let srcContent = (if match3 = [] then match4 else match3);
               quoteChar = (if match3 = [] then [CHR 0x27] else [CHR 0x22])
           in
           if HasPrefix srcContent ''data:'' \<or> HasPrefix srcContent ''http:'' \<or>
              HasPrefix srcContent ''https:'' \<or> HasPrefix srcContent ''//''
           then imgTag
           else
             (let cut = takeWhile (\<lambda>c. c \<noteq> CHR ''?'' \<and> c \<noteq> CHR ''#'') srcContent;
                  unescaped = (case QueryUnescape cut of Some u \<Rightarrow> u | None \<Rightarrow> cut);
                  cleanPath = FromSlash P unescaped;
                  fullPath = Join P [baseDir, cleanPath]
              in
              case os_ReadFile W fullPath of
                Inl err \<Rightarrow> imgTag
              | Inr data \<Rightarrow>
                  (let mimeType = DetectContentType P data;
                       base64Data = EncodeToString data;
                       newDataURI = ''data:'' @ mimeType @ '';base64,'' @ base64Data;
                       newSrcAttr = match1 @ ''src='' @ quoteChar @ newDataURI @ quoteChar
                   in Replace1 imgTag match0 newSrcAttr))))"

lemma match_imgTag_shorter:
  assumes "match_imgTag s = Some (m, rest)"
  shows "length rest < length s"
proof -
  have fold_char: "\<And>p s r. match_fold_char p s = Some r \<Longrightarrow> length r < length s"
    by (case_tac s) (auto split: if_splits)
  have fold: "\<And>ps s r. match_fold ps s = Some r \<Longrightarrow> length r \<le> length s"
  proof -
    fix ps :: string and s r :: string
    show "match_fold ps s = Some r \<Longrightarrow> length r \<le> length s"
    proof (induction ps arbitrary: s)
      case Nil
      then show ?case by simp
    next
      case (Cons p ps)
      then show ?case
        by (auto split: option.splits dest!: fold_char) fastforce
    qed
  qed
  from assms obtain r c r' g where r: "match_fold ''<img'' s = Some r" and c: "r = c # r'"
    and d: "dropWhile (\<lambda>x. x \<noteq> CHR ''>'') r' = g # rest"
    by (auto simp: match_imgTag_def split: option.splits list.splits if_splits)
  have "length (dropWhile (\<lambda>x. x \<noteq> CHR ''>'') r') \<le> length r'"
    by (rule length_dropWhile_le)
  with d have "length rest < length r'" by simp
  moreover from r have "length r \<le> length s" by (rule fold)
  ultimately show ?thesis using c by simp
qed

text \<open>
  \<open>imgTagRe.ReplaceAllStringFunc(htmlContent, f)\<close>: the matches are found from left to
  right, none overlapping the one before; the text between them is copied.
\<close>

function ReplaceAllStringFunc :: "string \<Rightarrow> (string \<Rightarrow> string) \<Rightarrow> string" where
  "ReplaceAllStringFunc [] f = []"
| "ReplaceAllStringFunc (c # cs) f =
     (case match_imgTag (c # cs) of
        Some (m, rest) \<Rightarrow> f m @ ReplaceAllStringFunc rest f
      | None \<Rightarrow> c # ReplaceAllStringFunc cs f)"
  by pat_completeness auto
termination
  by (relation "measure (\<lambda>(s, f). length s)") (auto dest: match_imgTag_shorter)

text \<open>
  No step of \<open>inlineLocalImages\<close> can panic: both patterns compile, a match of \<open>srcRe\<close> has
  five groups, and the slice bound comes from \<open>IndexAny\<close>. So the deferred \<open>recover\<close> has
  nothing to catch, and the function is the replacement below.
\<close>

definition inlineLocalImages :: "platform \<Rightarrow> world \<Rightarrow> string \<Rightarrow> string \<Rightarrow> string" where
  "inlineLocalImages P W htmlContent htmlFilePath =
     (let baseDir = Dir P htmlFilePath in
      ReplaceAllStringFunc htmlContent (inline_tag P W baseDir))"






section \<open>HTTP handlers\<close>

text \<open>
  Each route of the handler is a function from the request, the world and the shared
  state to the response, the new state and the effects. A request body that
  \<open>json.Decode\<close> rejects is \<open>Inl\<close> of the decoder's error.
\<close>

subsection \<open>Native dialogs\<close>

definition getNativeOpenDialog :: "world \<Rightarrow> error + string" where
  "getNativeOpenDialog W =
     (case GetOpenFileName W of (ret, buf) \<Rightarrow> if ret = 0 then Inl ''cancelled'' else Inr buf)"

text \<open>The filter and the default extension the save dialog is opened with.\<close>

definition save_filter :: "string \<Rightarrow> string \<times> string" where
  "save_filter filterType =
     (if filterType = ''pdf''
        then (''PDF Files (*.pdf)'' @ [CHR 0x00] @ ''*.pdf'' @ [CHR 0x00, CHR 0x00], ''pdf'')
      else if filterType = ''md''
        then (''Markdown Files (*.md)'' @ [CHR 0x00] @ ''*.md'' @ [CHR 0x00, CHR 0x00], ''md'')
      else (''HTML Files (*.html)'' @ [CHR 0x00] @ ''*.html'' @ [CHR 0x00, CHR 0x00], ''html''))"

definition getNativeSaveDialog :: "world \<Rightarrow> string \<Rightarrow> error + string" where
  "getNativeSaveDialog W filterType =
     (case save_filter filterType of
        (filterSpec, defExt) \<Rightarrow>
          (case GetSaveFileName W filterSpec defExt of
             (ret, buf) \<Rightarrow> if ret = 0 then Inl ''cancelled'' else Inr buf))"

definition handle_dialog_open :: "world \<Rightarrow> response" where
  "handle_dialog_open W =
     (case getNativeOpenDialog W of
        Inl err \<Rightarrow> \<lparr>status = 200, content = DialogResponse []\<rparr>
      | Inr path \<Rightarrow> \<lparr>status = 200, content = DialogResponse path\<rparr>)"

definition handle_dialog_save :: "world \<Rightarrow> query \<Rightarrow> response" where
  "handle_dialog_save W q =
     (let filterType = Get q ''filter'' in
      case getNativeSaveDialog W filterType of
        Inl err \<Rightarrow> \<lparr>status = 200, content = DialogResponse []\<rparr>
      | Inr path \<Rightarrow> \<lparr>status = 200, content = DialogResponse path\<rparr>)"

subsection \<open>Handover and open-file\<close>

definition handle_cli_handover ::
  "platform \<Rightarrow> world \<Rightarrow> string \<Rightarrow> error + FileData \<Rightarrow> server \<Rightarrow> response \<times> server \<times> effect list"
where
  "handle_cli_handover P W rnd decoded s =
     (case decoded of
        Inl err \<Rightarrow> (http_Error err 400, s, [])
      | Inr payload0 \<Rightarrow>
          (let payload =
                 (case DecodeString (Data payload0) of
                    Some dataBytes \<Rightarrow>
                      (let ext = ToLower P (Ext P (FileName payload0)) in
                       if ext = ''.html'' \<or> ext = ''.htm'' then
                         payload0\<lparr>Data :=
                           EncodeToString (inlineLocalImages P W dataBytes (FileName payload0))\<rparr>
                       else payload0)
                  | None \<Rightarrow> payload0);
               newID = generateID rnd
           in (\<lparr>status = 200, content = Raw newID\<rparr>,
               s\<lparr>fileStore := (fileStore s)(newID \<mapsto> payload)\<rparr>,
               [OpenDefaultBrowser (targetUrl @ ''/?fileId='' @ newID)])))"

definition handle_open_file :: "platform \<Rightarrow> world \<Rightarrow> query \<Rightarrow> server \<Rightarrow> response" where
  "handle_open_file P W q s =
     (case q ''path'' of
        filePath # others \<Rightarrow>
          (if filePath = [] then http_Error ''Empty file path'' 400
           else
             (case os_ReadFile W filePath of
                Inl err \<Rightarrow> http_Error (''Failed to read file: '' @ err) 404
              | Inr fileContent \<Rightarrow>
                  (let ext = ToLower P (Ext P filePath) in
                   if ext = ''.html'' \<or> ext = ''.htm''
                   then \<lparr>status = 200, content = Raw (inlineLocalImages P W fileContent filePath)\<rparr>
                   else \<lparr>status = 200, content = Raw fileContent\<rparr>)))
      | [] \<Rightarrow>
          (let targetID = (case q ''fileId'' of [] \<Rightarrow> [] | i # ids \<Rightarrow> i) in
           case fileStore s targetID of
             Some data \<Rightarrow>
               (case DecodeString (Data data) of
                  None \<Rightarrow> http_Error ''Failed to decode stored file'' 500
                | Some decoded \<Rightarrow> \<lparr>status = 200, content = Raw decoded\<rparr>)
           | None \<Rightarrow> http_Error ''File ID not found'' 404))"

subsection \<open>Render store and exports\<close>

definition handle_render_view :: "query \<Rightarrow> server \<Rightarrow> response" where
  "handle_render_view q s =
     (let token = Get q ''token'' in
      case renderStore s token of
        None \<Rightarrow> http_NotFound
      | Some html \<Rightarrow> \<lparr>status = 200, content = Raw html\<rparr>)"

definition renderURL :: "string \<Rightarrow> string" where
  "renderURL token = ''http://127.0.0.1:'' @ APP_PORT @ ''/api/render-view?token='' @ token"

text \<open>
  The deferred function of both export handlers: it runs when the handler returns, on
  every path after the \<open>defer\<close> statement.
\<close>

definition deferred_delete :: "string \<Rightarrow> response \<times> server \<times> effect list \<Rightarrow> response \<times> server \<times> effect list" where
  "deferred_delete token r =
     (case r of (resp, s, effs) \<Rightarrow> (resp, s\<lparr>renderStore := (renderStore s)(token := None)\<rparr>, effs))"

definition handle_export_screenshot ::
  "world \<Rightarrow> string \<Rightarrow> error + ScreenshotRequest \<Rightarrow> server \<Rightarrow> response \<times> server \<times> effect list"
where
  "handle_export_screenshot W rnd decoded s =
     (case decoded of
        Inl err \<Rightarrow> (http_Error ''Invalid request body'' 400, s, [])
      | Inr req \<Rightarrow>
          if Html req = [] then (http_Error ''HTML content is empty'' 400, s, [])
          else
            (let token = generateID rnd;
                 s1 = s\<lparr>renderStore := (renderStore s)(token \<mapsto> Html req)\<rparr>
             in deferred_delete token
                  (case chromedp_Run W (FullScreenshot (renderURL token) (Width req)) of
                     Inl err \<Rightarrow> (http_Error (''Chromedp Error: '' @ err) 500, s1, [])
                   | Inr buf \<Rightarrow> (\<lparr>status = 200, content = Raw buf\<rparr>, s1, []))))"

definition handle_export_pdf ::
  "world \<Rightarrow> string \<Rightarrow> error + PdfExportRequest \<Rightarrow> server \<Rightarrow> response \<times> server \<times> effect list"
where
  "handle_export_pdf W rnd decoded s =
     (case decoded of
        Inl err \<Rightarrow> (http_Error ''Invalid request body'' 400, s, [])
      | Inr req \<Rightarrow>
          if pdf_Html req = [] \<or> pdf_Path req = []
          then (http_Error ''HTML content or Path is empty'' 400, s, [])
          else
            (let token = generateID rnd;
                 s1 = s\<lparr>renderStore := (renderStore s)(token \<mapsto> pdf_Html req)\<rparr>;
                 scale = (if pdf_Scale req \<le> 0 then 1 else pdf_Scale req)
             in deferred_delete token
                  (case chromedp_Run W (PrintToPDF (renderURL token) scale) of
                     Inl err \<Rightarrow> (http_Error (''Chromedp Error: '' @ err) 500, s1, [])
                   | Inr buf \<Rightarrow>
                       (case os_WriteFile W (pdf_Path req) of
                          Some err \<Rightarrow> (http_Error ''Failed to write PDF file'' 500, s1, [])
                        | None \<Rightarrow>
                            (\<lparr>status = 200, content = Raw []\<rparr>, s1,
                             [Written (pdf_Path req) buf])))))"

subsection \<open>Save\<close>

text \<open>
  The multipart form of a save request: the value \<open>filePath\<close>, the file part \<open>html\<close> if
  there is one, and the file parts \<open>assets\<close>. \<open>Opened\<close> is what \<open>fileHeader.Open()\<close> gives: the
  part's bytes or an error.
\<close>

record FileHeader =
  Filename :: string
  Opened :: "error + string"

record form =
  form_filePath :: string
  form_html :: "string option"
  form_assets :: "FileHeader list"

text \<open>
  The placement strategy: the directory for the assets, the path of the document, and,
  where \<open>os.MkdirAll\<close> is called on the directory, the message sent if it fails.
\<close>

definition save_placement :: "platform \<Rightarrow> string \<Rightarrow> bool \<Rightarrow> string \<times> string \<times> string option" where
  "save_placement P inputPath hasAssets =
     (let inputDir = Dir P inputPath;
          inputName = Base P inputPath;
          inputExt = Ext P inputName;
          inputNameNoExt = TrimSuffix inputName inputExt;
          parentDirName = Base P inputDir
      in
      if ToLower P inputExt = ''.md'' \<or> ToLower P inputExt = ''.markdown'' then
        (Join P [inputDir, inputNameNoExt @ ''_assets''], inputPath,
         if hasAssets then Some ''Failed to create assets directory'' else None)
      else
        (let shouldBundle = (hasAssets \<and> \<not> EqualFold P parentDirName inputNameNoExt) in
         if shouldBundle then
           (let finalDir = Join P [inputDir, inputNameNoExt] in
            (finalDir, Join P [finalDir, inputName], Some ''Failed to create directory''))
         else (inputDir, inputPath, None)))"

text \<open>The loop over the asset parts: a part that fails to open or to be created is skipped.\<close>

fun save_assets :: "platform \<Rightarrow> world \<Rightarrow> string \<Rightarrow> FileHeader list \<Rightarrow> effect list" where
  "save_assets P W finalDir [] = []"
| "save_assets P W finalDir (fileHeader # others) =
     (case Opened fileHeader of
        Inl err \<Rightarrow> save_assets P W finalDir others
      | Inr src \<Rightarrow>
          (let assetPath = Join P [finalDir, Filename fileHeader] in
           case os_Create W assetPath of
             None \<Rightarrow>
               (case io_Copy W assetPath of
                  None \<Rightarrow> Written assetPath src
                | Some err \<Rightarrow> Created assetPath) # save_assets P W finalDir others
           | Some err \<Rightarrow> save_assets P W finalDir others))"

definition handle_save_file ::
  "platform \<Rightarrow> world \<Rightarrow> form option \<Rightarrow> server \<Rightarrow> response \<times> server \<times> effect list"
where
  "handle_save_file P W parsed s =
     (case parsed of
        None \<Rightarrow> (http_Error ''Failed to parse multipart form'' 400, s, [])
      | Some fm \<Rightarrow>
          (let inputPath = form_filePath fm in
           if inputPath = [] then (http_Error ''File path is empty'' 400, s, [])
           else
             (let hasAssets = (form_assets fm \<noteq> []) in
              case save_placement P inputPath hasAssets of
                (finalDir, finalHtmlPath, mkdir) \<Rightarrow>
                  (case (case mkdir of
                           None \<Rightarrow> Inr []
                         | Some msg \<Rightarrow>
                             (case os_MkdirAll W finalDir of
                                Some err \<Rightarrow> Inl msg
                              | None \<Rightarrow> Inr [Mkdir finalDir])) of
                     Inl msg \<Rightarrow> (http_Error msg 500, s, [])
                   | Inr made \<Rightarrow>
                       (case form_html fm of
                          None \<Rightarrow> (http_Error ''Content file part missing'' 400, s, made)
                        | Some htmlFile \<Rightarrow>
                            (let s1 = s\<lparr>locks := unlockFile P finalHtmlPath (locks s)\<rparr> in
                             case os_Create W finalHtmlPath of
                               Some err \<Rightarrow>
                                 (\<lparr>status = 500,
                                   content = ErrorJson (''Failed to write file: '' @ err @
                                     ''. The file might be open in another program.'')\<rparr>,
                                  s1\<lparr>locks := lockFile P W finalHtmlPath (locks s1)\<rparr>,
                                  made)
                             | None \<Rightarrow>
                                 (case io_Copy W finalHtmlPath of
                                    Some err \<Rightarrow>
                                      (\<lparr>status = 500,
                                        content = ErrorJson (''Failed to save content: '' @ err)\<rparr>,
                                       s1\<lparr>locks := lockFile P W finalHtmlPath (locks s1)\<rparr>,
                                       made @ [Created finalHtmlPath])
                                  | None \<Rightarrow>
                                      (\<lparr>status = 200, content = DialogResponse finalHtmlPath\<rparr>,
                                       s1,
                                       made @ [Written finalHtmlPath htmlFile]
                                         @ (if hasAssets then save_assets P W finalDir (form_assets fm)
                                            else [])))))))))"

subsection \<open>Lock and unlock requests\<close>

definition handle_file_lock :: "platform \<Rightarrow> world \<Rightarrow> error + string \<Rightarrow> server \<Rightarrow> response \<times> server" where
  "handle_file_lock P W decoded s =
     (case decoded of
        Inr path \<Rightarrow>
          if path \<noteq> [] then (\<lparr>status = 200, content = Raw []\<rparr>, s\<lparr>locks := lockFile P W path (locks s)\<rparr>)
          else (\<lparr>status = 200, content = Raw []\<rparr>, s)
      | Inl err \<Rightarrow> (\<lparr>status = 200, content = Raw []\<rparr>, s))"

definition handle_file_unlock :: "platform \<Rightarrow> error + string \<Rightarrow> server \<Rightarrow> response \<times> server" where
  "handle_file_unlock P decoded s =
     (case decoded of
        Inr path \<Rightarrow>
          if path \<noteq> [] then (\<lparr>status = 200, content = Raw []\<rparr>, s\<lparr>locks := unlockFile P path (locks s)\<rparr>)
          else (\<lparr>status = 200, content = Raw []\<rparr>, s)
      | Inl err \<Rightarrow> (\<lparr>status = 200, content = Raw []\<rparr>, s))"

section \<open>Start-up: primary or secondary\<close>

text \<open>
  \<open>main\<close> up to the point where it blocks or returns: the effects, in order, and the file
  store the routes start with. \<open>Args\<close> is \<open>os.Args\<close>; \<open>rnd\<close> feeds \<open>generateID\<close>. The goroutines
  of the primary (the server, the delayed browser launch) are listed in the order they
  are started. Left out: hiding the console window, and the \<open>log.Fatal\<close> on \<open>fs.Sub\<close>,
  which cannot fail on the embedded directory.
\<close>

definition listenAddr :: string where
  "listenAddr = ''127.0.0.1:'' @ APP_PORT"

definition main :: "platform \<Rightarrow> world \<Rightarrow> string list \<Rightarrow> string \<Rightarrow> effect list \<times> server" where
  "main P W Args rnd =
     (case net_Listen W listenAddr of
        Some err \<Rightarrow>
          (if length Args > 1 then
             (let filePath = Args ! 1;
                  absPath = filepath_Abs W filePath
              in case os_Stat W absPath of
                   Inr isDir \<Rightarrow>
                     if \<not> isDir then
                       (case os_ReadFile W absPath of
                          Inr fileContent \<Rightarrow>
                            (let payload = \<lparr>FileName = absPath, Data = EncodeToString fileContent\<rparr>;
                                 post = HttpPost (targetUrl @ ''/api/cli-handover'')
                                          ''application/json'' payload 2
                             in case http_Post W (targetUrl @ ''/api/cli-handover'') of
                                  None \<Rightarrow> ([post], server_init)
                                | Some postErr \<Rightarrow> ([post], server_init))
                        | Inl err \<Rightarrow> ([], server_init))
                     else ([], server_init)
                 | Inl err \<Rightarrow> ([], server_init))
           else ([OpenDefaultBrowser targetUrl], server_init))
      | None \<Rightarrow>
          (let stored =
                 (if length Args > 1 then
                    (let filePath = Args ! 1;
                         absPath = filepath_Abs W filePath
                     in case os_Stat W absPath of
                          Inr isDir \<Rightarrow>
                            if \<not> isDir then
                              (case os_ReadFile W absPath of
                                 Inr fileContent \<Rightarrow>
                                   (let ext = ToLower P (Ext P absPath);
                                        finalContent =
                                          (if ext = ''.html'' \<or> ext = ''.htm''
                                           then inlineLocalImages P W fileContent absPath
                                           else fileContent)
                                    in Some (generateID rnd,
                                             \<lparr>FileName = absPath, Data = EncodeToString finalContent\<rparr>))
                               | Inl err \<Rightarrow> None)
                            else None
                        | Inl err \<Rightarrow> None)
                  else None)
           in case stored of
                Some (initialID, data) \<Rightarrow>
                  ([Serve, OpenDefaultBrowser (targetUrl @ ''/?fileId='' @ initialID),
                    RunTrayApp targetUrl],
                   server_init\<lparr>fileStore := (fileStore server_init)(initialID \<mapsto> data)\<rparr>)
              | None \<Rightarrow>
                  ([Serve, OpenDefaultBrowser targetUrl, RunTrayApp targetUrl], server_init)))"

section \<open>A Windows platform\<close>

text \<open>
  The program is built for Windows. This platform follows Go's \<open>path/filepath\<close> there on
  paths that start with a drive letter or carry no volume name (UNC and device paths
  are outside it), with both \<open>\\<close> and \<open>/\<close> as separators, and folds the case of the
  ASCII letters only. It serves to evaluate the model on concrete requests; no theorem
  about the program depends on it.
\<close>

definition backslash :: char where
  "backslash = CHR 0x5C"

definition isSlash :: "char \<Rightarrow> bool" where
  "isSlash c = (c = backslash \<or> c = CHR ''/'')"

definition ascii_ToLower :: "string \<Rightarrow> string" where
  "ascii_ToLower s = map lower_byte s"

definition ascii_EqualFold :: "string \<Rightarrow> string \<Rightarrow> bool" where
  "ascii_EqualFold s t = (ascii_ToLower s = ascii_ToLower t)"

definition windows_FromSlash :: "string \<Rightarrow> string" where
  "windows_FromSlash s = map (\<lambda>c. if c = CHR ''/'' then backslash else c) s"

definition volumeNameLen :: "string \<Rightarrow> nat" where
  "volumeNameLen path = (case path of c # d # r \<Rightarrow> if d = CHR '':'' then 2 else 0 | _ \<Rightarrow> 0)"

fun split_on :: "(char \<Rightarrow> bool) \<Rightarrow> string \<Rightarrow> string list" where
  "split_on p [] = [[]]"
| "split_on p (c # cs) =
     (if p c then [] # split_on p cs
      else (case split_on p cs of e # es \<Rightarrow> (c # e) # es | [] \<Rightarrow> [[c]]))"

fun clean_elements :: "bool \<Rightarrow> string list \<Rightarrow> string list \<Rightarrow> string list" where
  "clean_elements rooted out [] = rev out"
| "clean_elements rooted out (e # es) =
     (if e = [] \<or> e = ''.'' then clean_elements rooted out es
      else if e = ''..'' then
        (case out of
           prev # rest \<Rightarrow>
             if prev = ''..'' then clean_elements rooted (e # out) es
             else clean_elements rooted rest es
         | [] \<Rightarrow>
             if rooted then clean_elements rooted [] es
             else clean_elements rooted [e] es)
      else clean_elements rooted (e # out) es)"

fun join_with :: "char \<Rightarrow> string list \<Rightarrow> string" where
  "join_with c [] = []"
| "join_with c [e] = e"
| "join_with c (e # es) = e @ c # join_with c es"

definition windows_Clean :: "string \<Rightarrow> string" where
  "windows_Clean path =
     (let vol = take (volumeNameLen path) path; rest = drop (volumeNameLen path) path in
      if rest = [] then path @ ''.''
      else
        (let rooted = isSlash (hd rest);
             out = (if rooted then [backslash] else [])
                     @ join_with backslash (clean_elements rooted [] (split_on isSlash rest))
         in vol @ (if out = [] then ''.'' else out)))"

definition windows_Base :: "string \<Rightarrow> string" where
  "windows_Base path =
     (if path = [] then ''.''
      else
        (let p1 = rev (dropWhile isSlash (rev path));
             p2 = drop (volumeNameLen p1) p1;
             p3 = rev (takeWhile (\<lambda>c. \<not> isSlash c) (rev p2))
         in if p3 = [] then [backslash] else p3))"

definition windows_Ext :: "string \<Rightarrow> string" where
  "windows_Ext path =
     (let elem = rev (takeWhile (\<lambda>c. \<not> isSlash c) (rev path));
          after = takeWhile (\<lambda>c. c \<noteq> CHR ''.'') (rev elem)
      in if length after = length elem then [] else CHR ''.'' # rev after)"

definition windows_Dir :: "string \<Rightarrow> string" where
  "windows_Dir path =
     (let vol = take (volumeNameLen path) path; rest = drop (volumeNameLen path) path;
          dir = windows_Clean (rev (dropWhile (\<lambda>c. \<not> isSlash c) (rev rest)))
      in vol @ dir)"

fun join_elems :: "string \<Rightarrow> string list \<Rightarrow> string" where
  "join_elems b [] = b"
| "join_elems b (e # es) =
     (if b = [] then join_elems e es
      else if isSlash (last b) then
        (let e' = dropWhile isSlash e in
         if length b = 1 \<and> take 2 e' = ''??'' then join_elems (b @ [CHR ''.'', backslash] @ e') es
         else join_elems (b @ e') es)
      else if last b = CHR '':'' then join_elems (b @ e) es
      else join_elems (b @ backslash # e) es)"

definition windows_Join :: "string list \<Rightarrow> string" where
  "windows_Join elem = (let b = join_elems [] elem in if b = [] then [] else windows_Clean b)"

definition windows :: platform where
  "windows = \<lparr>GOOS = ''windows'', Clean = windows_Clean, Dir = windows_Dir,
     Base = windows_Base, Ext = windows_Ext, Join = windows_Join,
     FromSlash = windows_FromSlash, ToLower = ascii_ToLower, EqualFold = ascii_EqualFold,
     DetectContentType = (\<lambda>data. ''application/octet-stream'')\<rparr>"

section \<open>Worlds to run the model in\<close>

definition not_found :: error where
  "not_found = ''The system cannot find the file specified.''"

definition access_denied :: error where
  "access_denied = ''Access is denied.''"

text \<open>
  A disk without files, on which everything can be created; the port is free, the
  dialogs are cancelled and the browser does not answer. Launch arguments are absolute
  paths, which \<open>filepath.Abs\<close> cleans.
\<close>

definition empty_disk :: world where
  "empty_disk =
     \<lparr>os_Open = (\<lambda>p. Some not_found), os_Create = (\<lambda>p. None), os_MkdirAll = (\<lambda>p. None),
      os_WriteFile = (\<lambda>p. None), io_Copy = (\<lambda>p. None),
      os_ReadFile = (\<lambda>p. Inl not_found), os_Stat = (\<lambda>p. Inl not_found),
      filepath_Abs = windows_Clean, net_Listen = (\<lambda>a. None), http_Post = (\<lambda>u. None),
      GetOpenFileName = (0, []), GetSaveFileName = (\<lambda>f d. (0, [])),
      chromedp_Run = (\<lambda>job. Inl ''context deadline exceeded'')\<rparr>"

text \<open>The same world with one more readable file.\<close>

definition with_file :: "string \<Rightarrow> string \<Rightarrow> world \<Rightarrow> world" where
  "with_file path data W =
     W\<lparr>os_Open := (os_Open W)(path := None),
       os_ReadFile := (os_ReadFile W)(path := Inr data),
       os_Stat := (os_Stat W)(path := Inr False)\<rparr>"

text \<open>The same world with one path that cannot be created or written.\<close>

definition write_protected :: "string \<Rightarrow> world \<Rightarrow> world" where
  "write_protected path W =
     W\<lparr>os_Create := (os_Create W)(path := Some access_denied),
       os_WriteFile := (os_WriteFile W)(path := Some access_denied)\<rparr>"

text \<open>A query with a single parameter, and the browser answering every job with some bytes.\<close>

definition one_param :: "string \<Rightarrow> string \<Rightarrow> query" where
  "one_param key v = (\<lambda>k. if k = key then [v] else [])"

definition rendering :: "string \<Rightarrow> world \<Rightarrow> world" where
  "rendering bytes W = W\<lparr>chromedp_Run := (\<lambda>job. Inr bytes)\<rparr>"

text \<open>The port is held by another process; a file that exists but cannot be read.\<close>

definition port_taken :: "world \<Rightarrow> world" where
  "port_taken W =
     W\<lparr>net_Listen :=
         (\<lambda>a. Some ''bind: Only one usage of each socket address is normally permitted.'')\<rparr>"

definition unreadable_file :: "string \<Rightarrow> world \<Rightarrow> world" where
  "unreadable_file path W =
     W\<lparr>os_Stat := (os_Stat W)(path := Inr False),
       os_ReadFile := (os_ReadFile W)(path := Inl access_denied)\<rparr>"

text \<open>A path that another program holds open without sharing: it cannot be opened or created.\<close>

definition sharing_violation :: error where
  "sharing_violation =
     ''The process cannot access the file because it is being used by another process.''"

definition held_by_another :: "string \<Rightarrow> world \<Rightarrow> world" where
  "held_by_another path W =
     W\<lparr>os_Open := (os_Open W)(path := Some sharing_violation),
       os_Create := (os_Create W)(path := Some sharing_violation)\<rparr>"

section \<open>Base64 encoding and decoding are inverse\<close>

lemma encodeStd_distinct: "distinct encodeStd"
  by code_simp

lemma encodeStd_length: "length encodeStd = 64"
  by (simp add: encodeStd_def)

lemma decodeMap_encodeStd:
  assumes "n < 64"
  shows "decodeMap (encodeStd ! n) = Some n"
proof -
  have "takeWhile (\<lambda>x. x \<noteq> encodeStd ! n) encodeStd = take n encodeStd"
  proof (rule takeWhile_eq_take_P_nth)
    fix i assume "i < n" "i < length encodeStd"
    then show "encodeStd ! i \<noteq> encodeStd ! n"
      using assms encodeStd_distinct by (simp add: nth_eq_iff_index_eq encodeStd_length)
  qed simp
  then show ?thesis using assms by (simp add: decodeMap_def encodeStd_length)
qed

lemma nat_of_bits6: "nat_of_bits [a, b, c, d, e, f] < 64"
  by (simp add: nat_of_bits_def)

lemma bits6_nat_of_bits: "bits6 (nat_of_bits [a, b, c, d, e, f]) = [a, b, c, d, e, f]"
  by (cases a; cases b; cases c; cases d; cases e; cases f) (simp_all add: bits6_def nat_of_bits_def)


lemma encodeStd_plain:
  assumes "n < 64"
  shows "encodeStd ! n \<noteq> CHR ''=''" and "encodeStd ! n \<noteq> CHR 0x0D" and "encodeStd ! n \<noteq> CHR 0x0A"
proof -
  have m: "encodeStd ! n \<in> set encodeStd" using assms by (simp add: encodeStd_length)
  have "CHR ''='' \<notin> set encodeStd" "CHR 0x0D \<notin> set encodeStd" "CHR 0x0A \<notin> set encodeStd"
    by (simp_all add: encodeStd_def)
  with m show "encodeStd ! n \<noteq> CHR ''=''" and "encodeStd ! n \<noteq> CHR 0x0D"
    and "encodeStd ! n \<noteq> CHR 0x0A"
    by auto
qed

lemma octets_bits_of: "octets (bits_of a @ bs) = a # octets bs"
  by (cases a) simp

lemma decode_full_quantum:
  "decode_quanta (sextets (bits_of a @ bits_of b @ bits_of c) @ rest) =
     map_option ((@) [a, b, c]) (decode_quanta rest)"
proof -
  obtain a0 a1 a2 a3 a4 a5 a6 a7 where a: "a = Char a0 a1 a2 a3 a4 a5 a6 a7" by (cases a)
  obtain b0 b1 b2 b3 b4 b5 b6 b7 where b: "b = Char b0 b1 b2 b3 b4 b5 b6 b7" by (cases b)
  obtain c0 c1 c2 c3 c4 c5 c6 c7 where c: "c = Char c0 c1 c2 c3 c4 c5 c6 c7" by (cases c)
  show ?thesis
    unfolding a b c
    by (simp add: decodeMap_encodeStd nat_of_bits6 bits6_nat_of_bits encodeStd_plain
          )
qed


lemma decode_two_bytes:
  "decode_quanta (sextets (bits_of a @ bits_of b @ [False, False]) @ ''='') = Some [a, b]"
proof -
  obtain a0 a1 a2 a3 a4 a5 a6 a7 where a: "a = Char a0 a1 a2 a3 a4 a5 a6 a7" by (cases a)
  obtain b0 b1 b2 b3 b4 b5 b6 b7 where b: "b = Char b0 b1 b2 b3 b4 b5 b6 b7" by (cases b)
  show ?thesis
    unfolding a b
    by (simp add: decodeMap_encodeStd nat_of_bits6 bits6_nat_of_bits encodeStd_plain)
qed

lemma decode_one_byte:
  "decode_quanta (sextets (bits_of a @ [False, False, False, False]) @ ''=='') = Some [a]"
proof -
  obtain a0 a1 a2 a3 a4 a5 a6 a7 where a: "a = Char a0 a1 a2 a3 a4 a5 a6 a7" by (cases a)
  show ?thesis
    unfolding a
    by (simp add: decodeMap_encodeStd nat_of_bits6 bits6_nat_of_bits encodeStd_plain)
qed

lemma decode_quanta_EncodeToString: "decode_quanta (EncodeToString s) = Some s"
  by (induction s rule: EncodeToString.induct)
     (simp_all only: EncodeToString.simps decode_full_quantum decode_two_bytes decode_one_byte
        decode_quanta.simps option.map append.simps)

lemma sextets_plain: "set (sextets bs) \<subseteq> set encodeStd"
proof (induction bs rule: sextets.induct)
  case (1 a b c d e f rest)
  have "encodeStd ! nat_of_bits [a, b, c, d, e, f] \<in> set encodeStd"
    using nat_of_bits6[of a b c d e f] by (simp add: encodeStd_length del: nat_of_bits_def)
  with 1 show ?case by simp
qed simp_all

lemma EncodeToString_plain: "set (EncodeToString s) \<subseteq> set encodeStd \<union> {CHR ''=''}"
  using sextets_plain
  by (induction s rule: EncodeToString.induct) (auto simp del: sextets.simps)

text \<open>What \<open>EncodeToString\<close> makes of any bytes, \<open>DecodeString\<close> gives back.\<close>

lemma DecodeString_EncodeToString: "DecodeString (EncodeToString s) = Some s"
proof -
  have "CHR 0x0D \<notin> set encodeStd \<union> {CHR ''=''}" "CHR 0x0A \<notin> set encodeStd \<union> {CHR ''=''}"
    by (simp_all add: encodeStd_def)
  with EncodeToString_plain[of s]
  have "filter (\<lambda>c. c \<noteq> CHR 0x0D \<and> c \<noteq> CHR 0x0A) (EncodeToString s) = EncodeToString s"
    by (auto simp: filter_id_conv)
  then show ?thesis by (simp add: DecodeString_def decode_quanta_EncodeToString)
qed

section \<open>Properties of the file lock registry\<close>

lemma inv_init: "registry_inv P no_locks"
  by (simp add: registry_inv_def no_locks_def)

lemma inv_lock_step:
  assumes inv: "registry_inv P s"
    and free: "map_of (activeFileHandles s) key = None"
    and key: "key = getLockKey P path"
  shows "registry_inv P
           (s\<lparr>activeFileHandles :=
                 AList.update key \<lparr>file_fd = nextFd s, file_name = path\<rparr> (activeFileHandles s),
               openFiles := \<lparr>file_fd = nextFd s, file_name = path\<rparr> # openFiles s,
               nextFd := Suc (nextFd s)\<rparr>)"
proof -
  let ?m = "map_of (activeFileHandles s)"
  let ?f = "\<lparr>file_fd = nextFd s, file_name = path\<rparr>"
  from inv have d1: "distinct (map fst (activeFileHandles s))"
    and d2: "distinct (openFiles s)"
    and op: "\<And>g. (g \<in> set (openFiles s)) = (\<exists>k. ?m k = Some g)"
    and ky: "\<And>k g. ?m k = Some g \<Longrightarrow> k = getLockKey P (file_name g) \<and> file_fd g < nextFd s"
    unfolding registry_inv_def by blast+
  have fresh: "?f \<notin> set (openFiles s)"
  proof
    assume "?f \<in> set (openFiles s)"
    then obtain k where "?m k = Some ?f" using op by blast
    then have "file_fd ?f < nextFd s" using ky by blast
    then show False by simp
  qed
  have a: "distinct (map fst (AList.update key ?f (activeFileHandles s)))"
    using d1 by (rule AList.distinct_update)
  have b: "distinct (?f # openFiles s)" using d2 fresh by simp
  have c: "\<And>g. (g \<in> set (?f # openFiles s)) = (\<exists>k. (?m(key \<mapsto> ?f)) k = Some g)"
  proof -
    fix g
    show "(g \<in> set (?f # openFiles s)) = (\<exists>k. (?m(key \<mapsto> ?f)) k = Some g)"
    proof
      assume "g \<in> set (?f # openFiles s)"
      then consider "g = ?f" | "g \<in> set (openFiles s)" by auto
      then show "\<exists>k. (?m(key \<mapsto> ?f)) k = Some g"
      proof cases
        case 1
        then show ?thesis by (intro exI[of _ key]) simp
      next
        case 2
        then obtain k where k: "?m k = Some g" using op by blast
        with free have "k \<noteq> key" by auto
        with k show ?thesis by (intro exI[of _ k]) simp
      qed
    next
      assume "\<exists>k. (?m(key \<mapsto> ?f)) k = Some g"
      then obtain k where k: "(?m(key \<mapsto> ?f)) k = Some g" by blast
      show "g \<in> set (?f # openFiles s)"
      proof (cases "k = key")
        case True
        with k show ?thesis by simp
      next
        case False
        with k have "?m k = Some g" by simp
        then show ?thesis using op by auto
      qed
    qed
  qed
  have d: "\<And>k g. (?m(key \<mapsto> ?f)) k = Some g \<Longrightarrow>
             k = getLockKey P (file_name g) \<and> file_fd g < Suc (nextFd s)"
  proof -
    fix k g
    assume h: "(?m(key \<mapsto> ?f)) k = Some g"
    show "k = getLockKey P (file_name g) \<and> file_fd g < Suc (nextFd s)"
    proof (cases "k = key")
      case True
      with h have "g = ?f" by simp
      with True key show ?thesis by simp
    next
      case False
      with h have "?m k = Some g" by simp
      then show ?thesis using ky less_Suc_eq by blast
    qed
  qed
  show ?thesis
    unfolding registry_inv_def
    using a b c d by (simp add: AList.update_conv' del: map_of_eq_Some_iff)
qed

lemma inv_lockFile: "registry_inv P s \<Longrightarrow> registry_inv P (lockFile P W path s)"
  unfolding lockFile_def Let_def
  by (auto intro: inv_lock_step split: option.splits simp del: map_of_eq_Some_iff)

lemma inv_unlock_step:
  assumes inv: "registry_inv P s"
    and held: "map_of (activeFileHandles s) key = Some f"
  shows "registry_inv P
           (s\<lparr>activeFileHandles := AList.delete key (activeFileHandles s),
               openFiles := removeAll f (openFiles s)\<rparr>)"
proof -
  let ?m = "map_of (activeFileHandles s)"
  from inv have d1: "distinct (map fst (activeFileHandles s))"
    and d2: "distinct (openFiles s)"
    and op: "\<And>g. (g \<in> set (openFiles s)) = (\<exists>k. ?m k = Some g)"
    and ky: "\<And>k g. ?m k = Some g \<Longrightarrow> k = getLockKey P (file_name g) \<and> file_fd g < nextFd s"
    unfolding registry_inv_def by blast+
  have a: "distinct (map fst (AList.delete key (activeFileHandles s)))"
    using d1 by (rule AList.distinct_delete)
  have b: "distinct (removeAll f (openFiles s))" using d2 by (simp add: distinct_removeAll)
  have c: "\<And>g. (g \<in> set (removeAll f (openFiles s))) = (\<exists>k. (?m(key := None)) k = Some g)"
  proof -
    fix g
    show "(g \<in> set (removeAll f (openFiles s))) = (\<exists>k. (?m(key := None)) k = Some g)"
    proof
      assume "g \<in> set (removeAll f (openFiles s))"
      then have ne: "g \<noteq> f" and "g \<in> set (openFiles s)" by auto
      then obtain k where k: "?m k = Some g" using op by blast
      with held ne have "k \<noteq> key" by auto
      with k show "\<exists>k. (?m(key := None)) k = Some g" by (intro exI[of _ k]) simp
    next
      assume "\<exists>k. (?m(key := None)) k = Some g"
      then obtain k where k: "(?m(key := None)) k = Some g" by blast
      then have kk: "k \<noteq> key" and mk: "?m k = Some g" by (auto split: if_splits)
      have "g \<noteq> f"
      proof
        assume "g = f"
        with mk have "k = getLockKey P (file_name f)" using ky by blast
        moreover from held have "key = getLockKey P (file_name f)" using ky by blast
        ultimately show False using kk by simp
      qed
      moreover have "g \<in> set (openFiles s)" using mk op by blast
      ultimately show "g \<in> set (removeAll f (openFiles s))" by simp
    qed
  qed
  have d: "\<And>k g. (?m(key := None)) k = Some g \<Longrightarrow>
             k = getLockKey P (file_name g) \<and> file_fd g < nextFd s"
    using ky by (auto split: if_splits)
  show ?thesis
    unfolding registry_inv_def
    using a b c d by (simp add: AList.delete_conv' del: map_of_eq_Some_iff)
qed

lemma inv_unlockFile: "registry_inv P s \<Longrightarrow> registry_inv P (unlockFile P path s)"
  unfolding unlockFile_def Let_def
  by (auto intro: inv_unlock_step split: option.splits simp del: map_of_eq_Some_iff)


lemma filter_delete:
  "filter (\<lambda>(k', g). k' \<notin> A) (AList.delete k xs) = filter (\<lambda>(k', g). k' \<notin> insert k A) xs"
  by (induction xs) auto

lemma filter_removeAll:
  "filter (\<lambda>g. g \<notin> A) (removeAll f xs) = filter (\<lambda>g. g \<notin> insert f A) xs"
  by (induction xs) auto

lemma unlockAll_fold:
  "fold (\<lambda>(key, f) t.
           t\<lparr>activeFileHandles := AList.delete key (activeFileHandles t),
             openFiles := removeAll f (openFiles t)\<rparr>) es s =
   s\<lparr>activeFileHandles := filter (\<lambda>(k, g). k \<notin> fst ` set es) (activeFileHandles s),
     openFiles := filter (\<lambda>g. g \<notin> snd ` set es) (openFiles s)\<rparr>"
proof (induction es arbitrary: s)
  case Nil
  then show ?case by simp
next
  case (Cons e es)
  obtain k f where e: "e = (k, f)" by (cases e)
  show ?case
    by (simp add: e Cons.IH filter_delete filter_removeAll)
qed

lemma unlockAll_result:
  assumes "registry_inv P s"
  shows "unlockAll s = s\<lparr>activeFileHandles := [], openFiles := []\<rparr>"
proof -
  have a: "filter (\<lambda>(k, g). k \<notin> fst ` set (activeFileHandles s)) (activeFileHandles s) = []"
    by (auto simp: filter_empty_conv intro: rev_image_eqI)
  have "\<And>g. g \<in> set (openFiles s) \<Longrightarrow> g \<in> snd ` set (activeFileHandles s)"
  proof -
    fix g assume "g \<in> set (openFiles s)"
    with assms obtain k where "map_of (activeFileHandles s) k = Some g"
      unfolding registry_inv_def by blast
    then have "(k, g) \<in> set (activeFileHandles s)" by (rule map_of_SomeD)
    then show "g \<in> snd ` set (activeFileHandles s)" by (rule rev_image_eqI) simp
  qed
  then have b: "filter (\<lambda>g. g \<notin> snd ` set (activeFileHandles s)) (openFiles s) = []"
    by (simp add: filter_empty_conv)
  show ?thesis
    unfolding unlockAll_def unlockAll_fold a b ..
qed

lemma inv_unlockAll: "registry_inv P s \<Longrightarrow> registry_inv P (unlockAll s)"
  by (simp add: unlockAll_result) (simp add: registry_inv_def)

lemma reachable_inv: "reachable P s \<Longrightarrow> registry_inv P s"
  by (induction rule: reachable.induct)
     (simp_all add: inv_init inv_lockFile inv_unlockFile inv_unlockAll)

lemma short_list:
  assumes "distinct xs" and "\<And>x y. x \<in> set xs \<Longrightarrow> y \<in> set xs \<Longrightarrow> x = y"
  shows "length xs \<le> 1"
proof (cases xs)
  case Nil
  then show ?thesis by simp
next
  case (Cons a as)
  have "as = []"
  proof (cases as)
    case Nil
    then show ?thesis .
  next
    case (Cons b bs)
    with \<open>xs = a # as\<close> assms(2)[of a b] have "a = b" by simp
    with Cons \<open>xs = a # as\<close> assms(1) show ?thesis by simp
  qed
  with Cons show ?thesis by simp
qed

lemma handles_registered:
  assumes inv: "registry_inv P s" and f: "f \<in> set (handles_for P key s)"
  shows "map_of (activeFileHandles s) key = Some f"
proof -
  from f have o: "f \<in> set (openFiles s)" and k: "getLockKey P (file_name f) = key"
    by (simp_all add: handles_for_def)
  from inv o obtain k' where m: "map_of (activeFileHandles s) k' = Some f"
    unfolding registry_inv_def by blast
  with inv have "k' = getLockKey P (file_name f)" unfolding registry_inv_def by blast
  with m k show ?thesis by simp
qed

lemma handles_for_le1:
  assumes inv: "registry_inv P s"
  shows "length (handles_for P key s) \<le> 1"
proof (rule short_list)
  from inv show "distinct (handles_for P key s)"
    by (simp add: handles_for_def registry_inv_def)
next
  fix x y
  assume x: "x \<in> set (handles_for P key s)" and y: "y \<in> set (handles_for P key s)"
  have "map_of (activeFileHandles s) key = Some x" using inv x by (rule handles_registered)
  moreover have "map_of (activeFileHandles s) key = Some y" using inv y by (rule handles_registered)
  ultimately show "x = y" by simp
qed

lemma handles_for_locked:
  assumes inv: "registry_inv P s" and m: "map_of (activeFileHandles s) key = Some f"
  shows "handles_for P key s = [f]"
proof -
  from inv m have "f \<in> set (openFiles s)" and "key = getLockKey P (file_name f)"
    unfolding registry_inv_def by blast+
  then have mem: "f \<in> set (handles_for P key s)" by (simp add: handles_for_def)
  have "length (handles_for P key s) \<le> 1" using inv by (rule handles_for_le1)
  with mem show ?thesis
    by (cases "handles_for P key s") auto
qed

lemma handles_for_unlocked:
  assumes inv: "registry_inv P s" and m: "map_of (activeFileHandles s) key = None"
  shows "handles_for P key s = []"
proof (cases "handles_for P key s")
  case Nil
  then show ?thesis .
next
  case (Cons f fs)
  then have "f \<in> set (handles_for P key s)" by simp
  with inv have "map_of (activeFileHandles s) key = Some f" by (rule handles_registered)
  with m show ?thesis by simp
qed

lemma handles_for_count:
  assumes "registry_inv P s"
  shows "length (handles_for P (getLockKey P path) s) = (if locked P path s then 1 else 0)"
  using assms handles_for_locked[OF assms] handles_for_unlocked[OF assms]
  by (auto simp: locked_def simp del: map_of_eq_Some_iff)

lemma locked_lockFile:
  "locked P path (lockFile P W path s) = (locked P path s \<or> os_Open W path = None)"
  unfolding locked_def lockFile_def Let_def
  by (auto simp: AList.update_conv' split: option.splits simp del: map_of_eq_Some_iff)

lemma lockFile_noop: "locked P path s \<Longrightarrow> lockFile P W path s = s"
  by (simp add: locked_def lockFile_def)

lemma lockFile_noop_same_key:
  "getLockKey P path' = getLockKey P path \<Longrightarrow> locked P path s \<Longrightarrow> lockFile P W path' s = s"
  by (simp add: locked_def lockFile_def)

lemma not_locked_unlockFile: "\<not> locked P path (unlockFile P path s)"
  unfolding locked_def unlockFile_def Let_def
  by (auto simp: AList.delete_conv' split: option.splits simp del: map_of_eq_Some_iff)

lemma unlockFile_noop: "\<not> locked P path s \<Longrightarrow> unlockFile P path s = s"
  by (simp add: locked_def unlockFile_def)

text \<open>
  Claim C4, as the code has it. \<open>Lock(p); Lock(p)\<close> leaves at most one open handle for the
  canonical form of \<open>p\<close>: exactly one when \<open>p\<close> was locked before or one of the two
  \<open>os.Open\<close> calls succeeds, none when both fail, because \<open>lockFile\<close> drops the error of
  \<open>os.Open\<close>. Locking a path that is locked, under this or any other spelling with the
  same canonical form, changes nothing. In every reachable state of the registry each
  canonical path has at most one open handle.
\<close>

theorem lockFile_twice_at_most_one_handle:
  assumes "reachable P s"
  shows "length (handles_for P (getLockKey P p) (lockFile P W2 p (lockFile P W1 p s))) =
           (if locked P p s \<or> os_Open W1 p = None \<or> os_Open W2 p = None then 1 else 0)
         \<and> (getLockKey P p' = getLockKey P p \<and> locked P p (lockFile P W1 p s) \<longrightarrow>
              lockFile P W2 p' (lockFile P W1 p s) = lockFile P W1 p s)
         \<and> (\<forall>key. length (handles_for P key s) \<le> 1)"
proof -
  have r: "reachable P (lockFile P W2 p (lockFile P W1 p s))"
    using assms by (intro reach_lock)
  show ?thesis
    using handles_for_count[OF reachable_inv[OF r]] handles_for_le1[OF reachable_inv[OF assms]]
    by (simp add: locked_lockFile lockFile_noop_same_key)
qed

theorem lockFile_twice_at_most_one_handle_witness:
  "reachable windows no_locks
   \<and> length (handles_for windows (getLockKey windows ''C:/notes/draft.html'')
        (lockFile windows (with_file ''C:/notes/draft.html'' ''<p>x</p>'' empty_disk)
           ''C:/notes/draft.html''
           (lockFile windows (with_file ''C:/notes/draft.html'' ''<p>x</p>'' empty_disk)
              ''C:/notes/draft.html'' no_locks))) = 1
   \<and> getLockKey windows ''c:/Notes/tmp/../DRAFT.html'' = getLockKey windows ''C:/notes/draft.html''
   \<and> locked windows ''C:/notes/draft.html''
        (lockFile windows (with_file ''C:/notes/draft.html'' ''<p>x</p>'' empty_disk)
           ''C:/notes/draft.html'' no_locks)
   \<and> lockFile windows empty_disk ''c:/Notes/tmp/../DRAFT.html''
        (lockFile windows (with_file ''C:/notes/draft.html'' ''<p>x</p>'' empty_disk)
           ''C:/notes/draft.html'' no_locks)
       = lockFile windows (with_file ''C:/notes/draft.html'' ''<p>x</p>'' empty_disk)
           ''C:/notes/draft.html'' no_locks
   \<and> length (handles_for windows (getLockKey windows ''C:/notes/draft.html'') no_locks) \<le> 1"
proof -
  let ?V = "with_file ''C:/notes/draft.html'' ''<p>x</p>'' empty_disk"
  have r: "reachable windows no_locks" by (rule reach_init)
  have o: "os_Open ?V ''C:/notes/draft.html'' = None"
    by (simp add: with_file_def)
  have k: "getLockKey windows ''c:/Notes/tmp/../DRAFT.html'' = getLockKey windows ''C:/notes/draft.html''"
    by code_simp
  note t = lockFile_twice_at_most_one_handle[OF r, where p = "''C:/notes/draft.html''"
      and ?W1.0 = ?V and ?W2.0 = ?V and p' = "''C:/notes/draft.html''"]
  note u = lockFile_twice_at_most_one_handle[OF r, where p = "''C:/notes/draft.html''"
      and ?W1.0 = ?V and ?W2.0 = empty_disk and p' = "''c:/Notes/tmp/../DRAFT.html''"]
  from conjunct1[OF t] o
  have a: "length (handles_for windows (getLockKey windows ''C:/notes/draft.html'')
        (lockFile windows ?V ''C:/notes/draft.html''
           (lockFile windows ?V ''C:/notes/draft.html'' no_locks))) = 1"
    by simp
  from o have b: "locked windows ''C:/notes/draft.html''
        (lockFile windows ?V ''C:/notes/draft.html'' no_locks)"
    by (simp add: locked_lockFile)
  from conjunct1[OF conjunct2[OF u]] k b
  have d: "lockFile windows empty_disk ''c:/Notes/tmp/../DRAFT.html''
        (lockFile windows ?V ''C:/notes/draft.html'' no_locks)
       = lockFile windows ?V ''C:/notes/draft.html'' no_locks"
    by blast
  from conjunct2[OF conjunct2[OF t]]
  have c: "length (handles_for windows (getLockKey windows ''C:/notes/draft.html'') no_locks) \<le> 1"
    by blast
  from r a k b d c show ?thesis by blast
qed

text \<open>
  On a disk where \<open>C:/notes/draft.html\<close> does not exist both \<open>os.Open\<close> calls fail, and two
  locks in sequence leave no handle at all, not one.
\<close>

theorem lockFile_twice_open_fails_counterexample:
  "length (handles_for windows (getLockKey windows ''C:/notes/draft.html'')
      (lockFile windows empty_disk ''C:/notes/draft.html''
         (lockFile windows empty_disk ''C:/notes/draft.html'' no_locks))) = 0
   \<and> \<not> locked windows ''C:/notes/draft.html''
      (lockFile windows empty_disk ''C:/notes/draft.html''
         (lockFile windows empty_disk ''C:/notes/draft.html'' no_locks))"
  by (simp add: lockFile_def handles_for_def locked_def no_locks_def empty_disk_def)

text \<open>
  Claim C5. \<open>Lock(p); Unlock(p)\<close> leaves no open handle and no registry entry for the
  canonical form of \<open>p\<close>, whether or not \<open>os.Open\<close> succeeded, and one more \<open>Unlock(p)\<close> returns
  the registry as it was. \<open>unlockFile\<close> has no error result.
\<close>

theorem lockFile_unlockFile_no_handle:
  assumes "reachable P s"
  shows "handles_for P (getLockKey P p) (unlockFile P p (lockFile P W p s)) = []
         \<and> \<not> locked P p (unlockFile P p (lockFile P W p s))
         \<and> unlockFile P p (unlockFile P p (lockFile P W p s)) = unlockFile P p (lockFile P W p s)"
proof -
  have r: "reachable P (unlockFile P p (lockFile P W p s))"
    using assms by (intro reach_unlock reach_lock)
  have n: "\<not> locked P p (unlockFile P p (lockFile P W p s))" by (rule not_locked_unlockFile)
  have "length (handles_for P (getLockKey P p) (unlockFile P p (lockFile P W p s))) = 0"
    using handles_for_count[OF reachable_inv[OF r], of p] n by simp
  with n show ?thesis by (simp add: unlockFile_noop)
qed

theorem lockFile_unlockFile_no_handle_witness:
  "reachable windows no_locks
   \<and> locked windows ''C:/notes/draft.html''
        (lockFile windows (with_file ''C:/notes/draft.html'' ''<p>x</p>'' empty_disk)
           ''C:/notes/draft.html'' no_locks)
   \<and> handles_for windows (getLockKey windows ''C:/notes/draft.html'')
        (unlockFile windows ''C:/notes/draft.html''
           (lockFile windows (with_file ''C:/notes/draft.html'' ''<p>x</p>'' empty_disk)
              ''C:/notes/draft.html'' no_locks)) = []"
proof -
  have r: "reachable windows no_locks" by (rule reach_init)
  have o: "os_Open (with_file ''C:/notes/draft.html'' ''<p>x</p>'' empty_disk)
             ''C:/notes/draft.html'' = None"
    by (simp add: with_file_def)
  show ?thesis
    using r o lockFile_unlockFile_no_handle[OF r, of "''C:/notes/draft.html''"
        "with_file ''C:/notes/draft.html'' ''<p>x</p>'' empty_disk"]
    by (simp add: locked_lockFile)
qed

section \<open>Properties of the dialog and export routes\<close>

text \<open>
  Claim C9. When the native open or save dialog returns 0, which is what it returns when
  the user cancels, the route answers with status 200 and the JSON body
  \<open>{"path": ""}\<close>. Neither route has any other status.
\<close>

theorem dialog_cancel_is_empty_path:
  "(fst (GetOpenFileName W) = 0 \<longrightarrow>
      handle_dialog_open W = \<lparr>status = 200, content = DialogResponse []\<rparr>)
   \<and> (fst (GetSaveFileName W (fst (save_filter (Get q ''filter'')))
              (snd (save_filter (Get q ''filter'')))) = 0 \<longrightarrow>
      handle_dialog_save W q = \<lparr>status = 200, content = DialogResponse []\<rparr>)
   \<and> status (handle_dialog_open W) = 200
   \<and> status (handle_dialog_save W q) = 200"
  by (auto simp: handle_dialog_open_def handle_dialog_save_def getNativeOpenDialog_def
        getNativeSaveDialog_def Let_def split: prod.splits sum.splits)

theorem dialog_cancel_is_empty_path_witness:
  "fst (GetOpenFileName empty_disk) = 0
   \<and> handle_dialog_open empty_disk = \<lparr>status = 200, content = DialogResponse []\<rparr>
   \<and> fst (GetSaveFileName empty_disk (fst (save_filter (Get (\<lambda>k. []) ''filter'')))
              (snd (save_filter (Get (\<lambda>k. []) ''filter'')))) = 0
   \<and> handle_dialog_save empty_disk (\<lambda>k. []) = \<lparr>status = 200, content = DialogResponse []\<rparr>"
proof -
  have a: "fst (GetOpenFileName empty_disk) = 0" by (simp add: empty_disk_def)
  have b: "fst (GetSaveFileName empty_disk (fst (save_filter (Get (\<lambda>k. []) ''filter'')))
              (snd (save_filter (Get (\<lambda>k. []) ''filter'')))) = 0"
    by (simp add: empty_disk_def)
  from a b dialog_cancel_is_empty_path[of empty_disk "\<lambda>k. []"] show ?thesis by blast
qed

text \<open>
  Claim C2. A call of the screenshot or PDF handler that gets as far as storing the HTML
  under its token returns with the token deleted from the render store, whether the
  render succeeds or fails (a timeout is one of the errors of \<open>chromedp.Run\<close>) and whether
  the PDF can be written or not; the other entries of the store are as before. A
  \<open>render-view\<close> request for that token then gets 404.
\<close>

theorem export_deletes_render_token:
  "(Html req \<noteq> [] \<longrightarrow>
      (case handle_export_screenshot W rnd (Inr req) s of
         (resp, s', effs) \<Rightarrow>
           renderStore s' = (renderStore s)(generateID rnd := None)
           \<and> generateID rnd \<notin> dom (renderStore s')
           \<and> (Get q ''token'' = generateID rnd \<longrightarrow> status (handle_render_view q s') = 404)))
   \<and> (pdf_Html preq \<noteq> [] \<and> pdf_Path preq \<noteq> [] \<longrightarrow>
      (case handle_export_pdf W rnd (Inr preq) s of
         (resp, s', effs) \<Rightarrow>
           renderStore s' = (renderStore s)(generateID rnd := None)
           \<and> generateID rnd \<notin> dom (renderStore s')
           \<and> (Get q ''token'' = generateID rnd \<longrightarrow> status (handle_render_view q s') = 404)))"
  by (auto simp: handle_export_screenshot_def handle_export_pdf_def deferred_delete_def
        handle_render_view_def http_NotFound_def http_Error_def Let_def
        split: sum.splits option.splits)

theorem export_deletes_render_token_witness:
  "Html \<lparr>Html = ''<p>hi</p>'', Width = 800\<rparr> \<noteq> []
   \<and> (case handle_export_screenshot empty_disk ''12345678''
             (Inr \<lparr>Html = ''<p>hi</p>'', Width = 800\<rparr>) server_init of
         (resp, s', effs) \<Rightarrow>
           status resp = 500 \<and> renderStore s' (generateID ''12345678'') = None
           \<and> status (handle_render_view (one_param ''token'' (generateID ''12345678'')) s') = 404)
   \<and> pdf_Html \<lparr>pdf_Html = ''<p>hi</p>'', pdf_Path = ''C:/out/a.pdf'', pdf_Scale = 1\<rparr> \<noteq> []
   \<and> pdf_Path \<lparr>pdf_Html = ''<p>hi</p>'', pdf_Path = ''C:/out/a.pdf'', pdf_Scale = 1\<rparr> \<noteq> []
   \<and> (case handle_export_pdf (rendering ''%PDF-1.4'' empty_disk) ''12345678''
             (Inr \<lparr>pdf_Html = ''<p>hi</p>'', pdf_Path = ''C:/out/a.pdf'', pdf_Scale = 1\<rparr>)
             server_init of
         (resp, s', effs) \<Rightarrow>
           status resp = 200 \<and> effs = [Written ''C:/out/a.pdf'' ''%PDF-1.4'']
           \<and> renderStore s' (generateID ''12345678'') = None
           \<and> status (handle_render_view (one_param ''token'' (generateID ''12345678'')) s') = 404)"
proof -
  let ?req = "\<lparr>Html = ''<p>hi</p>'', Width = 800\<rparr>"
  let ?preq = "\<lparr>pdf_Html = ''<p>hi</p>'', pdf_Path = ''C:/out/a.pdf'', pdf_Scale = 1\<rparr>"
  have g: "Get (one_param ''token'' (generateID ''12345678'')) ''token'' = generateID ''12345678''"
    by (simp add: Get_def one_param_def)
  have st1: "status (fst (handle_export_screenshot empty_disk ''12345678'' (Inr ?req) server_init))
      = 500"
    by (simp add: handle_export_screenshot_def deferred_delete_def empty_disk_def http_Error_def)
  have st2: "status (fst (handle_export_pdf (rendering ''%PDF-1.4'' empty_disk) ''12345678''
      (Inr ?preq) server_init)) = 200"
    by (simp add: handle_export_pdf_def deferred_delete_def empty_disk_def rendering_def)
  have ef2: "snd (snd (handle_export_pdf (rendering ''%PDF-1.4'' empty_disk) ''12345678''
      (Inr ?preq) server_init)) = [Written ''C:/out/a.pdf'' ''%PDF-1.4'']"
    by (simp add: handle_export_pdf_def deferred_delete_def empty_disk_def rendering_def)
  note shot = export_deletes_render_token[where req = ?req and W = empty_disk
      and rnd = "''12345678''" and s = server_init
      and q = "one_param ''token'' (generateID ''12345678'')" and preq = ?preq]
  note pdf = export_deletes_render_token[where req = ?req and W = "rendering ''%PDF-1.4'' empty_disk"
      and rnd = "''12345678''" and s = server_init
      and q = "one_param ''token'' (generateID ''12345678'')" and preq = ?preq]
  show ?thesis
    using g st1 st2 ef2 conjunct1[OF shot] conjunct2[OF pdf]
    by (auto split: prod.splits)
qed

section \<open>Properties of the handover\<close>



text \<open>
  On the Windows platform the handler's test on the extension is a test on how the file
  name ends, letter case apart: the extension is the end of the name, from its last dot.
\<close>

lemma windows_Ext_is_suffix: "\<exists>pre. path = pre @ windows_Ext path"
proof -
  let ?elem = "rev (takeWhile (\<lambda>c. \<not> isSlash c) (rev path))"
  let ?after = "takeWhile (\<lambda>c. c \<noteq> CHR ''.'') (rev ?elem)"
  have p: "path = rev (dropWhile (\<lambda>c. \<not> isSlash c) (rev path)) @ ?elem"
    by (metis rev_append rev_rev_ident takeWhile_dropWhile_id)
  show ?thesis
  proof (cases "length ?after = length ?elem")
    case True
    then have "windows_Ext path = []" by (simp add: windows_Ext_def Let_def)
    then show ?thesis by simp
  next
    case False
    then have e: "windows_Ext path = CHR ''.'' # rev ?after"
      by (simp add: windows_Ext_def Let_def)
    have "dropWhile (\<lambda>c. c \<noteq> CHR ''.'') (rev ?elem) \<noteq> []"
    proof
      assume "dropWhile (\<lambda>c. c \<noteq> CHR ''.'') (rev ?elem) = []"
      then have "?after = rev ?elem" by (metis append_Nil2 takeWhile_dropWhile_id)
      then have "length ?after = length ?elem" by (metis length_rev)
      with False show False by simp
    qed
    then obtain d ds where d: "dropWhile (\<lambda>c. c \<noteq> CHR ''.'') (rev ?elem) = d # ds"
      by (cases "dropWhile (\<lambda>c. c \<noteq> CHR ''.'') (rev ?elem)") auto
    then have "d = CHR ''.''" using hd_dropWhile[of "\<lambda>c. c \<noteq> CHR ''.''" "rev ?elem"] by auto
    with d have "rev ?elem = ?after @ CHR ''.'' # ds"
      by (metis takeWhile_dropWhile_id)
    then have "?elem = rev ds @ CHR ''.'' # rev ?after"
      by (metis rev_append rev.simps(2) rev_rev_ident append_assoc append_Cons append_Nil)
    with p e have "path = (rev (dropWhile (\<lambda>c. \<not> isSlash c) (rev path)) @ rev ds) @ windows_Ext path"
      by (metis append_assoc)
    then show ?thesis by blast
  qed
qed

lemma windows_extension_ends_name:
  assumes "ToLower windows (Ext windows fileName) = ext"
  shows "\<exists>pre. ascii_ToLower fileName = pre @ ext"
proof -
  obtain pre where "fileName = pre @ windows_Ext fileName"
    using windows_Ext_is_suffix by blast
  then have "ascii_ToLower fileName = ascii_ToLower pre @ ascii_ToLower (windows_Ext fileName)"
    by (metis ascii_ToLower_def map_append)
  with assms show ?thesis by (auto simp: windows_def)
qed

lemma handover_stores_payload:
  assumes "ToLower P (Ext P (FileName payload)) \<noteq> ''.html''"
    and "ToLower P (Ext P (FileName payload)) \<noteq> ''.htm''"
    and "DecodeString (Data payload) = Some bytes"
    and "q ''path'' = []"
    and "q ''fileId'' = generateID rnd # others"
  shows "fst (handle_cli_handover P W rnd (Inr payload) s) =
           \<lparr>status = 200, content = Raw (generateID rnd)\<rparr>
         \<and> handle_open_file P W' q (fst (snd (handle_cli_handover P W rnd (Inr payload) s))) =
           \<lparr>status = 200, content = Raw bytes\<rparr>"
  using assms
  by (simp add: handle_cli_handover_def handle_open_file_def Let_def)



text \<open>
  The two ends together: what a secondary posts for a file that is not HTML is stored by
  the primary and served back byte for byte, whatever the file holds.
\<close>

lemma secondary_file_served_back:
  assumes "ToLower P (Ext P absPath) \<noteq> ''.html''"
    and "ToLower P (Ext P absPath) \<noteq> ''.htm''"
    and "q ''path'' = []"
    and "q ''fileId'' = generateID rnd # others"
  shows "handle_open_file P W' q
           (fst (snd (handle_cli_handover P W rnd
              (Inr \<lparr>FileName = absPath, Data = EncodeToString fileContent\<rparr>) s))) =
         \<lparr>status = 200, content = Raw fileContent\<rparr>"
  using handover_stores_payload[where payload = "\<lparr>FileName = absPath, Data = EncodeToString fileContent\<rparr>"
      and bytes = fileContent and P = P and q = q and rnd = rnd and others = others
      and W = W and s = s and W' = W'] assms
  by (simp add: DecodeString_EncodeToString)

section \<open>Properties of the save route\<close>

text \<open>
  A save request that gets as far as writing the document: the form parsed, the path is
  not empty, the directory was made if one was needed, and the part \<open>html\<close> is there.
\<close>

lemma save_write_stage:
  assumes "form_filePath fm \<noteq> []"
    and "save_placement P (form_filePath fm) (form_assets fm \<noteq> []) = (finalDir, finalHtmlPath, mkdir)"
    and "mkdir = None \<or> os_MkdirAll W finalDir = None"
    and "form_html fm = Some doc"
  shows "handle_save_file P W (Some fm) s =
     (let made = (case mkdir of None \<Rightarrow> [] | Some msg \<Rightarrow> [Mkdir finalDir]);
          s1 = s\<lparr>locks := unlockFile P finalHtmlPath (locks s)\<rparr>
      in case os_Create W finalHtmlPath of
           Some err \<Rightarrow>
             (\<lparr>status = 500,
               content = ErrorJson (''Failed to write file: '' @ err @
                 ''. The file might be open in another program.'')\<rparr>,
              s1\<lparr>locks := lockFile P W finalHtmlPath (locks s1)\<rparr>, made)
         | None \<Rightarrow>
             (case io_Copy W finalHtmlPath of
                Some err \<Rightarrow>
                  (\<lparr>status = 500, content = ErrorJson (''Failed to save content: '' @ err)\<rparr>,
                   s1\<lparr>locks := lockFile P W finalHtmlPath (locks s1)\<rparr>,
                   made @ [Created finalHtmlPath])
              | None \<Rightarrow>
                  (\<lparr>status = 200, content = DialogResponse finalHtmlPath\<rparr>, s1,
                   made @ [Written finalHtmlPath doc]
                     @ (if form_assets fm \<noteq> [] then save_assets P W finalDir (form_assets fm)
                        else []))))"
  using assms
  by (auto simp: handle_save_file_def Let_def split: option.splits)

lemma save_assets_written:
  assumes "fh \<in> set fhs" and "Opened fh = Inr src"
    and "os_Create W (Join P [finalDir, Filename fh]) = None"
    and "io_Copy W (Join P [finalDir, Filename fh]) = None"
  shows "Written (Join P [finalDir, Filename fh]) src \<in> set (save_assets P W finalDir fhs)"
  using assms
  by (induction fhs) (auto simp: Let_def split: sum.splits option.splits)

lemma save_assets_append:
  "save_assets P W finalDir (xs @ ys) = save_assets P W finalDir xs @ save_assets P W finalDir ys"
  by (induction xs) (auto simp: Let_def split: sum.splits option.splits)

text \<open>The placement on some Windows paths, computed.\<close>

lemma placement_bundle:
  "save_placement windows ''C:/x/doc.html'' True =
     (windows_FromSlash ''C:/x/doc'', windows_FromSlash ''C:/x/doc/doc.html'',
      Some ''Failed to create directory'')"
  by code_simp

lemma placement_same_name:
  "save_placement windows ''C:/x/Doc/doc.html'' True =
     (windows_FromSlash ''C:/x/Doc'', ''C:/x/Doc/doc.html'', None)"
  by code_simp

lemma placement_markdown:
  "save_placement windows ''C:/x/notes.md'' True =
     (windows_FromSlash ''C:/x/notes_assets'', ''C:/x/notes.md'',
      Some ''Failed to create assets directory'')"
  by code_simp

lemma placement_no_assets:
  "save_placement windows ''C:/x/doc.html'' False =
     (windows_FromSlash ''C:/x'', ''C:/x/doc.html'', None)"
  by code_simp

lemma placement_in_place:
  "save_placement windows ''C:/x/doc/doc.html'' False =
     (windows_FromSlash ''C:/x/doc'', ''C:/x/doc/doc.html'', None)"
  by code_simp

lemma save_assets_paths:
  assumes "e \<in> set (save_assets P W finalDir fhs)"
  shows "\<exists>fh \<in> set fhs. e = Created (Join P [finalDir, Filename fh])
                       \<or> (\<exists>src. e = Written (Join P [finalDir, Filename fh]) src)"
  using assms
  by (induction fhs) (auto simp: Let_def split: sum.splits option.splits)

lemma save_success_effects:
  assumes "handle_save_file P W (Some fm) s = (resp, s', effs)" and "status resp = 200"
  shows "content resp =
           DialogResponse (fst (snd (save_placement P (form_filePath fm) (form_assets fm \<noteq> []))))
         \<and> (\<exists>doc made.
               effs = made
                 @ [Written (fst (snd (save_placement P (form_filePath fm) (form_assets fm \<noteq> [])))) doc]
                 @ save_assets P W (fst (save_placement P (form_filePath fm) (form_assets fm \<noteq> [])))
                     (form_assets fm)
               \<and> set made \<subseteq> {Mkdir (fst (save_placement P (form_filePath fm) (form_assets fm \<noteq> [])))})"
proof -
  obtain finalDir finalHtmlPath mkdir where
    pl: "save_placement P (form_filePath fm) (form_assets fm \<noteq> []) = (finalDir, finalHtmlPath, mkdir)"
    by (cases "save_placement P (form_filePath fm) (form_assets fm \<noteq> [])") auto
  have e: "form_assets fm = [] \<Longrightarrow> save_assets P W finalDir (form_assets fm) = []" by simp
  show ?thesis
    using assms e
    by (auto simp: pl handle_save_file_def Let_def http_Error_def
          split: option.splits sum.splits if_splits)
qed

text \<open>
  Claim C1, as the code has it. The placement is decided by the extension in lower case,
  the presence of assets, and whether the name of the parent directory equals the base
  name \<^emph>\<open>under case folding\<close> (\<open>strings.EqualFold\<close>). With \<open>dir\<close>, \<open>name\<close>, \<open>ext\<close> and
  \<open>base\<close> read off the request path as the handler reads them: a Markdown target keeps
  its path, its assets go to \<open>Join(dir, base + "_assets")\<close>; any other target with assets
  whose parent directory name does not fold to the base name is moved to
  \<open>Join(Join(dir, base), name)\<close>, its assets beside it; a target with assets whose parent
  directory name folds to the base name stays where it is, its assets in \<open>dir\<close>; a target
  without assets keeps its path. A response with status 200 reports the final path; the
  document has then been written there, and every asset file written or created is
  named by its \<open>Filename\<close> in the assets directory.
\<close>

theorem save_placement_policy:
  "(ToLower P (Ext P (Base P p)) = ''.md'' \<or> ToLower P (Ext P (Base P p)) = ''.markdown'' \<longrightarrow>
      fst (save_placement P p h) =
        Join P [Dir P p, TrimSuffix (Base P p) (Ext P (Base P p)) @ ''_assets'']
      \<and> fst (snd (save_placement P p h)) = p)
   \<and> (ToLower P (Ext P (Base P p)) \<noteq> ''.md'' \<and> ToLower P (Ext P (Base P p)) \<noteq> ''.markdown''
       \<and> h \<and> \<not> EqualFold P (Base P (Dir P p)) (TrimSuffix (Base P p) (Ext P (Base P p))) \<longrightarrow>
      fst (save_placement P p h) = Join P [Dir P p, TrimSuffix (Base P p) (Ext P (Base P p))]
      \<and> fst (snd (save_placement P p h)) =
          Join P [Join P [Dir P p, TrimSuffix (Base P p) (Ext P (Base P p))], Base P p])
   \<and> (ToLower P (Ext P (Base P p)) \<noteq> ''.md'' \<and> ToLower P (Ext P (Base P p)) \<noteq> ''.markdown''
       \<and> h \<and> EqualFold P (Base P (Dir P p)) (TrimSuffix (Base P p) (Ext P (Base P p))) \<longrightarrow>
      fst (save_placement P p h) = Dir P p \<and> fst (snd (save_placement P p h)) = p)
   \<and> (\<not> h \<longrightarrow> fst (snd (save_placement P p h)) = p)
   \<and> (case handle_save_file P W (Some fm) s of
         (resp, s', effs) \<Rightarrow>
           status resp = 200 \<longrightarrow>
             content resp =
               DialogResponse
                 (fst (snd (save_placement P (form_filePath fm) (form_assets fm \<noteq> []))))
             \<and> (form_assets fm = [] \<longrightarrow> content resp = DialogResponse (form_filePath fm))
             \<and> (\<exists>doc made.
                   effs = made
                     @ [Written (fst (snd (save_placement P (form_filePath fm)
                                            (form_assets fm \<noteq> [])))) doc]
                     @ save_assets P W
                         (fst (save_placement P (form_filePath fm) (form_assets fm \<noteq> [])))
                         (form_assets fm)
                   \<and> set made \<subseteq>
                       {Mkdir (fst (save_placement P (form_filePath fm) (form_assets fm \<noteq> [])))})
             \<and> (\<forall>e \<in> set (save_assets P W
                               (fst (save_placement P (form_filePath fm) (form_assets fm \<noteq> [])))
                               (form_assets fm)).
                   \<exists>fh \<in> set (form_assets fm).
                     e = Created (Join P [fst (save_placement P (form_filePath fm)
                                                (form_assets fm \<noteq> [])), Filename fh])
                     \<or> (\<exists>src. e = Written (Join P [fst (save_placement P (form_filePath fm)
                                                       (form_assets fm \<noteq> [])), Filename fh]) src)))"
proof (intro conjI)
  have keep: "\<And>q. fst (snd (save_placement P q False)) = q"
    by (simp add: save_placement_def Let_def)
  show "\<not> h \<longrightarrow> fst (snd (save_placement P p h)) = p"
    using keep[of p] by simp
  show "case handle_save_file P W (Some fm) s of
         (resp, s', effs) \<Rightarrow>
           status resp = 200 \<longrightarrow>
             content resp =
               DialogResponse
                 (fst (snd (save_placement P (form_filePath fm) (form_assets fm \<noteq> []))))
             \<and> (form_assets fm = [] \<longrightarrow> content resp = DialogResponse (form_filePath fm))
             \<and> (\<exists>doc made.
                   effs = made
                     @ [Written (fst (snd (save_placement P (form_filePath fm)
                                            (form_assets fm \<noteq> [])))) doc]
                     @ save_assets P W
                         (fst (save_placement P (form_filePath fm) (form_assets fm \<noteq> [])))
                         (form_assets fm)
                   \<and> set made \<subseteq>
                       {Mkdir (fst (save_placement P (form_filePath fm) (form_assets fm \<noteq> [])))})
             \<and> (\<forall>e \<in> set (save_assets P W
                               (fst (save_placement P (form_filePath fm) (form_assets fm \<noteq> [])))
                               (form_assets fm)).
                   \<exists>fh \<in> set (form_assets fm).
                     e = Created (Join P [fst (save_placement P (form_filePath fm)
                                                (form_assets fm \<noteq> [])), Filename fh])
                     \<or> (\<exists>src. e = Written (Join P [fst (save_placement P (form_filePath fm)
                                                       (form_assets fm \<noteq> [])), Filename fh]) src))"
  proof (cases "handle_save_file P W (Some fm) s")
    case (fields resp s' effs)
    show ?thesis
    proof (cases "status resp = 200")
      case True
      note ok = save_success_effects[OF fields True]
      have "form_assets fm = [] \<Longrightarrow> content resp = DialogResponse (form_filePath fm)"
        using conjunct1[OF ok] keep[of "form_filePath fm"] by simp
      then show ?thesis
        using ok save_assets_paths[of _ P W _ "form_assets fm"] by (simp add: fields)
    next
      case False
      then show ?thesis by (simp add: fields)
    qed
  qed
qed (simp_all add: save_placement_def Let_def)

theorem save_placement_policy_witness:
  "ToLower windows (Ext windows (Base windows ''C:/x/notes.md'')) = ''.md''
   \<and> fst (save_placement windows ''C:/x/notes.md'' True) = windows_FromSlash ''C:/x/notes_assets''
   \<and> fst (snd (save_placement windows ''C:/x/notes.md'' True)) = ''C:/x/notes.md''
   \<and> \<not> EqualFold windows (Base windows (Dir windows ''C:/x/doc.html''))
         (TrimSuffix (Base windows ''C:/x/doc.html'') (Ext windows (Base windows ''C:/x/doc.html'')))
   \<and> fst (snd (save_placement windows ''C:/x/doc.html'' True)) =
         windows_FromSlash ''C:/x/doc/doc.html''
   \<and> EqualFold windows (Base windows (Dir windows ''C:/x/doc/doc.html''))
         (TrimSuffix (Base windows ''C:/x/doc/doc.html'')
            (Ext windows (Base windows ''C:/x/doc/doc.html'')))
   \<and> fst (snd (save_placement windows ''C:/x/doc/doc.html'' True)) = ''C:/x/doc/doc.html''
   \<and> fst (snd (save_placement windows ''C:/x/doc.html'' False)) = ''C:/x/doc.html''
   \<and> status (fst (handle_save_file windows empty_disk
          (Some \<lparr>form_filePath = ''C:/x/doc.html'', form_html = Some ''<p>hi</p>'',
                 form_assets = []\<rparr>) server_init)) = 200
   \<and> content (fst (handle_save_file windows empty_disk
          (Some \<lparr>form_filePath = ''C:/x/doc.html'', form_html = Some ''<p>hi</p>'',
                 form_assets = []\<rparr>) server_init)) = DialogResponse ''C:/x/doc.html''"
proof -
  let ?fm = "\<lparr>form_filePath = ''C:/x/doc.html'', form_html = Some ''<p>hi</p>'',
                 form_assets = []\<rparr>"
  note md_row = save_placement_policy[where P = windows and p = "''C:/x/notes.md''" and h = True
      and W = empty_disk and s = server_init and fm = ?fm]
  note bundle_row = save_placement_policy[where P = windows and p = "''C:/x/doc.html''"
      and h = True and W = empty_disk and s = server_init and fm = ?fm]
  note same_row = save_placement_policy[where P = windows and p = "''C:/x/doc/doc.html''"
      and h = True and W = empty_disk and s = server_init and fm = ?fm]
  note plain_row = save_placement_policy[where P = windows and p = "''C:/x/doc.html''"
      and h = False and W = empty_disk and s = server_init and fm = ?fm]
  have md: "ToLower windows (Ext windows (Base windows ''C:/x/notes.md'')) = ''.md''"
    by code_simp
  have md_dir: "Join windows [Dir windows ''C:/x/notes.md'',
        TrimSuffix (Base windows ''C:/x/notes.md'') (Ext windows (Base windows ''C:/x/notes.md''))
          @ ''_assets''] = windows_FromSlash ''C:/x/notes_assets''"
    by code_simp
  have 1: "fst (save_placement windows ''C:/x/notes.md'' True) = windows_FromSlash ''C:/x/notes_assets''
      \<and> fst (snd (save_placement windows ''C:/x/notes.md'' True)) = ''C:/x/notes.md''"
    using conjunct1[OF md_row] md md_dir by simp
  have nmd: "ToLower windows (Ext windows (Base windows ''C:/x/doc.html'')) \<noteq> ''.md''
      \<and> ToLower windows (Ext windows (Base windows ''C:/x/doc.html'')) \<noteq> ''.markdown''"
    by code_simp
  have ne: "\<not> EqualFold windows (Base windows (Dir windows ''C:/x/doc.html''))
         (TrimSuffix (Base windows ''C:/x/doc.html'') (Ext windows (Base windows ''C:/x/doc.html'')))"
    by code_simp
  have b_path: "Join windows [Join windows [Dir windows ''C:/x/doc.html'',
        TrimSuffix (Base windows ''C:/x/doc.html'') (Ext windows (Base windows ''C:/x/doc.html''))],
        Base windows ''C:/x/doc.html''] = windows_FromSlash ''C:/x/doc/doc.html''"
    by code_simp
  have 2: "fst (snd (save_placement windows ''C:/x/doc.html'' True)) =
         windows_FromSlash ''C:/x/doc/doc.html''"
    using conjunct1[OF conjunct2[OF bundle_row]] nmd ne b_path by simp
  have nmd': "ToLower windows (Ext windows (Base windows ''C:/x/doc/doc.html'')) \<noteq> ''.md''
      \<and> ToLower windows (Ext windows (Base windows ''C:/x/doc/doc.html'')) \<noteq> ''.markdown''"
    by code_simp
  have eq: "EqualFold windows (Base windows (Dir windows ''C:/x/doc/doc.html''))
         (TrimSuffix (Base windows ''C:/x/doc/doc.html'')
            (Ext windows (Base windows ''C:/x/doc/doc.html'')))"
    by code_simp
  have 3: "fst (snd (save_placement windows ''C:/x/doc/doc.html'' True)) = ''C:/x/doc/doc.html''"
    using conjunct1[OF conjunct2[OF conjunct2[OF same_row]]] nmd' eq by simp
  have 4: "fst (snd (save_placement windows ''C:/x/doc.html'' False)) = ''C:/x/doc.html''"
    using conjunct1[OF conjunct2[OF conjunct2[OF conjunct2[OF plain_row]]]] by simp
  have st: "status (fst (handle_save_file windows empty_disk (Some ?fm) server_init)) = 200"
    by (simp add: save_write_stage[where finalDir = "windows_FromSlash ''C:/x''"
          and finalHtmlPath = "''C:/x/doc.html''" and mkdir = None and doc = "''<p>hi</p>''"]
        placement_no_assets empty_disk_def)
  have 5: "content (fst (handle_save_file windows empty_disk (Some ?fm) server_init)) =
      DialogResponse ''C:/x/doc.html''"
    using conjunct2[OF conjunct2[OF conjunct2[OF conjunct2[OF plain_row]]]] st
    by (auto split: prod.splits)
  from md 1 ne 2 eq 3 4 st 5 show ?thesis by blast
qed

text \<open>
  A save of \<open>C:\x\Doc\doc.html\<close> with one asset: the parent directory is named \<open>Doc\<close>, the
  base name is \<open>doc\<close>, the two differ, and yet the document is not bundled: it stays at the
  request path, which the response reports.
\<close>

theorem save_placement_case_counterexample:
  "Base windows (Dir windows (windows_FromSlash ''C:/x/Doc/doc.html'')) = ''Doc''
   \<and> TrimSuffix (Base windows (windows_FromSlash ''C:/x/Doc/doc.html''))
         (Ext windows (Base windows (windows_FromSlash ''C:/x/Doc/doc.html''))) = ''doc''
   \<and> ToLower windows (Ext windows (Base windows (windows_FromSlash ''C:/x/Doc/doc.html'')))
       = ''.html''
   \<and> ''Doc'' \<noteq> ''doc''
   \<and> fst (snd (save_placement windows (windows_FromSlash ''C:/x/Doc/doc.html'') True))
       = windows_FromSlash ''C:/x/Doc/doc.html''
   \<and> fst (handle_save_file windows empty_disk
          (Some \<lparr>form_filePath = windows_FromSlash ''C:/x/Doc/doc.html'',
                 form_html = Some ''<p>hi</p>'',
                 form_assets = [\<lparr>Filename = ''a.png'', Opened = Inr ''PNG''\<rparr>]\<rparr>) server_init) =
       \<lparr>status = 200, content = DialogResponse (windows_FromSlash ''C:/x/Doc/doc.html'')\<rparr>"
proof -
  let ?p = "windows_FromSlash ''C:/x/Doc/doc.html''"
  have a: "Base windows (Dir windows ?p) = ''Doc''" by code_simp
  have b: "TrimSuffix (Base windows ?p) (Ext windows (Base windows ?p)) = ''doc''" by code_simp
  have e: "ToLower windows (Ext windows (Base windows ?p)) = ''.html''" by code_simp
  have pl: "save_placement windows ?p True = (windows_FromSlash ''C:/x/Doc'', ?p, None)"
    by code_simp
  have ne: "?p \<noteq> []" by code_simp
  have c: "fst (handle_save_file windows empty_disk
          (Some \<lparr>form_filePath = ?p, form_html = Some ''<p>hi</p>'',
                 form_assets = [\<lparr>Filename = ''a.png'', Opened = Inr ''PNG''\<rparr>]\<rparr>) server_init) =
       \<lparr>status = 200, content = DialogResponse ?p\<rparr>"
    using ne
    by (simp add: save_write_stage[where finalDir = "windows_FromSlash ''C:/x/Doc''"
          and finalHtmlPath = ?p and mkdir = None and doc = "''<p>hi</p>''"]
        pl empty_disk_def)
  from a b e c show ?thesis by (simp add: pl)
qed

text \<open>
  Claim C10. When the document of a save request is written (the request reached the
  write, and \<open>os.Create\<close> and \<open>io.Copy\<close> on the final path succeeded), the response is 200
  with \<open>{"path": finalHtmlPath}\<close> whatever happens to the assets. An asset that fails to
  open or to be created is skipped and the loop goes on: every asset that can be opened,
  created and copied is written under the final directory, wherever it stands in the
  list.
\<close>

theorem save_ignores_asset_failures:
  assumes "form_filePath fm \<noteq> []"
    and "save_placement P (form_filePath fm) (form_assets fm \<noteq> []) = (finalDir, finalHtmlPath, mkdir)"
    and "mkdir = None \<or> os_MkdirAll W finalDir = None"
    and "form_html fm = Some doc"
    and "os_Create W finalHtmlPath = None"
    and "io_Copy W finalHtmlPath = None"
  shows "case handle_save_file P W (Some fm) s of
           (resp, s', effs) \<Rightarrow>
             resp = \<lparr>status = 200, content = DialogResponse finalHtmlPath\<rparr>
             \<and> Written finalHtmlPath doc \<in> set effs
             \<and> (\<forall>fh \<in> set (form_assets fm). \<forall>src.
                   Opened fh = Inr src
                   \<and> os_Create W (Join P [finalDir, Filename fh]) = None
                   \<and> io_Copy W (Join P [finalDir, Filename fh]) = None
                   \<longrightarrow> Written (Join P [finalDir, Filename fh]) src \<in> set effs)"
proof -
  have ne: "\<And>fh. fh \<in> set (form_assets fm) \<Longrightarrow> form_assets fm \<noteq> []" by auto
  show ?thesis
    unfolding save_write_stage[OF assms(1-4)]
    using assms(5,6) by (auto simp: Let_def save_assets_written dest: ne)
qed

theorem save_ignores_asset_failures_witness:
  "os_Create (write_protected (windows_FromSlash ''C:/x/doc/b.png'') empty_disk)
      (windows_FromSlash ''C:/x/doc/doc.html'') = None
   \<and> os_Create (write_protected (windows_FromSlash ''C:/x/doc/b.png'') empty_disk)
      (windows_FromSlash ''C:/x/doc/b.png'') \<noteq> None
   \<and> (case handle_save_file windows
            (write_protected (windows_FromSlash ''C:/x/doc/b.png'') empty_disk)
            (Some \<lparr>form_filePath = ''C:/x/doc.html'', form_html = Some ''<p>hi</p>'',
                   form_assets = [\<lparr>Filename = ''a.png'', Opened = Inl ''unexpected EOF''\<rparr>,
                                  \<lparr>Filename = ''b.png'', Opened = Inr ''PNG-b''\<rparr>,
                                  \<lparr>Filename = ''c.png'', Opened = Inr ''PNG-c''\<rparr>]\<rparr>)
            server_init of
         (resp, s', effs) \<Rightarrow>
           resp = \<lparr>status = 200, content = DialogResponse (windows_FromSlash ''C:/x/doc/doc.html'')\<rparr>
           \<and> Written (windows_FromSlash ''C:/x/doc/c.png'') ''PNG-c'' \<in> set effs)"
proof -
  let ?W = "write_protected (windows_FromSlash ''C:/x/doc/b.png'') empty_disk"
  let ?fm = "\<lparr>form_filePath = ''C:/x/doc.html'', form_html = Some ''<p>hi</p>'',
                   form_assets = [\<lparr>Filename = ''a.png'', Opened = Inl ''unexpected EOF''\<rparr>,
                                  \<lparr>Filename = ''b.png'', Opened = Inr ''PNG-b''\<rparr>,
                                  \<lparr>Filename = ''c.png'', Opened = Inr ''PNG-c''\<rparr>]\<rparr>"
  have ne: "windows_FromSlash ''C:/x/doc/doc.html'' \<noteq> windows_FromSlash ''C:/x/doc/b.png''"
    by code_simp
  have ne2: "windows_FromSlash ''C:/x/doc/c.png'' \<noteq> windows_FromSlash ''C:/x/doc/b.png''"
    by code_simp
  have jc: "Join windows [windows_FromSlash ''C:/x/doc'', ''c.png''] = windows_FromSlash ''C:/x/doc/c.png''"
    by code_simp
  have h1: "form_filePath ?fm \<noteq> []" by simp
  have h2: "save_placement windows (form_filePath ?fm) (form_assets ?fm \<noteq> []) =
      (windows_FromSlash ''C:/x/doc'', windows_FromSlash ''C:/x/doc/doc.html'',
       Some ''Failed to create directory'')"
    by (simp add: placement_bundle)
  have h3: "Some ''Failed to create directory'' = None
      \<or> os_MkdirAll ?W (windows_FromSlash ''C:/x/doc'') = None"
    by (simp add: write_protected_def empty_disk_def)
  have h4: "form_html ?fm = Some ''<p>hi</p>''" by simp
  have h5: "os_Create ?W (windows_FromSlash ''C:/x/doc/doc.html'') = None"
    using ne by (simp add: write_protected_def empty_disk_def)
  have h6: "io_Copy ?W (windows_FromSlash ''C:/x/doc/doc.html'') = None"
    by (simp add: write_protected_def empty_disk_def)
  have b: "os_Create ?W (windows_FromSlash ''C:/x/doc/b.png'') \<noteq> None"
    by (simp add: write_protected_def)
  have c1: "os_Create ?W (windows_FromSlash ''C:/x/doc/c.png'') = None"
    using ne2 by (simp add: write_protected_def empty_disk_def)
  have c2: "io_Copy ?W (windows_FromSlash ''C:/x/doc/c.png'') = None"
    by (simp add: write_protected_def empty_disk_def)
  note t = save_ignores_asset_failures[OF h1 h2 h3 h4 h5 h6, where s = server_init]
  show ?thesis
    using t h5 b c1 c2 jc by (auto split: prod.splits)
qed

text \<open>
  Claim C7, as the code has it. When creating or writing the target of a save fails, the
  handler answers 500 with a JSON error message, and its registry is what \<open>Lock\<close> on the
  target makes of what \<open>Unlock\<close> on the target made of the registry before. If the target
  was locked before and can be opened again, it is locked afterwards, with exactly one
  handle. If it cannot be opened again, it is left unlocked: \<open>Lock\<close> drops the error.
\<close>

theorem save_failure_relocks_target:
  assumes "form_filePath fm \<noteq> []"
    and "save_placement P (form_filePath fm) (form_assets fm \<noteq> []) = (finalDir, finalHtmlPath, mkdir)"
    and "mkdir = None \<or> os_MkdirAll W finalDir = None"
    and "form_html fm = Some doc"
    and "os_Create W finalHtmlPath \<noteq> None \<or> io_Copy W finalHtmlPath \<noteq> None"
    and "reachable P (locks s)"
  shows "case handle_save_file P W (Some fm) s of
           (resp, s', effs) \<Rightarrow>
             status resp = 500
             \<and> (\<exists>msg. content resp = ErrorJson msg)
             \<and> locks s' = lockFile P W finalHtmlPath (unlockFile P finalHtmlPath (locks s))
             \<and> (locked P finalHtmlPath (locks s) \<and> os_Open W finalHtmlPath = None \<longrightarrow>
                  locked P finalHtmlPath (locks s')
                  \<and> length (handles_for P (getLockKey P finalHtmlPath) (locks s')) = 1)
             \<and> (os_Open W finalHtmlPath \<noteq> None \<longrightarrow> \<not> locked P finalHtmlPath (locks s'))"
proof -
  let ?l = "lockFile P W finalHtmlPath (unlockFile P finalHtmlPath (locks s))"
  have r: "reachable P ?l" using assms(6) by (intro reach_lock reach_unlock)
  have lk: "locked P finalHtmlPath ?l = (os_Open W finalHtmlPath = None)"
    by (simp add: locked_lockFile not_locked_unlockFile)
  have cnt: "length (handles_for P (getLockKey P finalHtmlPath) ?l) =
               (if os_Open W finalHtmlPath = None then 1 else 0)"
    using handles_for_count[OF reachable_inv[OF r], of finalHtmlPath] lk by simp
  show ?thesis
    unfolding save_write_stage[OF assms(1-4)]
    using assms(5) lk cnt by (auto simp: Let_def split: option.splits)
qed

theorem save_failure_relocks_target_witness:
  "locked windows ''C:/x/doc/doc.html''
     (lockFile windows (with_file ''C:/x/doc/doc.html'' ''old'' empty_disk)
        ''C:/x/doc/doc.html'' no_locks)
   \<and> os_Create (write_protected ''C:/x/doc/doc.html''
                  (with_file ''C:/x/doc/doc.html'' ''old'' empty_disk))
         ''C:/x/doc/doc.html'' \<noteq> None
   \<and> os_Open (write_protected ''C:/x/doc/doc.html''
                (with_file ''C:/x/doc/doc.html'' ''old'' empty_disk))
         ''C:/x/doc/doc.html'' = None
   \<and> (case handle_save_file windows
            (write_protected ''C:/x/doc/doc.html''
               (with_file ''C:/x/doc/doc.html'' ''old'' empty_disk))
            (Some \<lparr>form_filePath = ''C:/x/doc/doc.html'', form_html = Some ''<p>new</p>'',
                   form_assets = []\<rparr>)
            (server_init\<lparr>locks :=
               lockFile windows (with_file ''C:/x/doc/doc.html'' ''old'' empty_disk)
                 ''C:/x/doc/doc.html'' no_locks\<rparr>) of
         (resp, s', effs) \<Rightarrow>
           status resp = 500
           \<and> locked windows ''C:/x/doc/doc.html'' (locks s')
           \<and> length (handles_for windows (getLockKey windows ''C:/x/doc/doc.html'') (locks s')) = 1)"
proof -
  let ?p = "''C:/x/doc/doc.html''"
  let ?V = "with_file ?p ''old'' empty_disk"
  let ?W = "write_protected ?p ?V"
  let ?fm = "\<lparr>form_filePath = ?p, form_html = Some ''<p>new</p>'', form_assets = []\<rparr>"
  let ?s = "server_init\<lparr>locks := lockFile windows ?V ?p no_locks\<rparr>"
  have lk: "locked windows ?p (lockFile windows ?V ?p no_locks)"
    by (simp add: locked_lockFile with_file_def)
  have h1: "form_filePath ?fm \<noteq> []" by simp
  have h2: "save_placement windows (form_filePath ?fm) (form_assets ?fm \<noteq> []) =
      (windows_FromSlash ''C:/x/doc'', ?p, None)"
    by (simp add: placement_in_place)
  have h3: "None = None \<or> os_MkdirAll ?W (windows_FromSlash ''C:/x/doc'') = None" by simp
  have h4: "form_html ?fm = Some ''<p>new</p>''" by simp
  have cr: "os_Create ?W ?p \<noteq> None" by (simp add: write_protected_def)
  have h5: "os_Create ?W ?p \<noteq> None \<or> io_Copy ?W ?p \<noteq> None" using cr by simp
  have h6: "reachable windows (locks ?s)"
    by (simp add: reach_lock[OF reach_init])
  have op: "os_Open ?W ?p = None" by (simp add: write_protected_def with_file_def)
  note t = save_failure_relocks_target[OF h1 h2 h3 h4 h5 h6]
  show ?thesis
    using t lk cr op by (auto split: prod.splits)
qed

text \<open>
  The target is locked, and between the unlock and the write another program opens it
  without sharing: \<open>os.Create\<close> fails, the \<open>os.Open\<close> of the lock fails too, and the file that
  was locked before the save is unlocked after it.
\<close>

theorem save_failure_leaves_unlocked_counterexample:
  "locked windows ''C:/x/doc/doc.html''
     (locks (server_init\<lparr>locks :=
        lockFile windows (with_file ''C:/x/doc/doc.html'' ''old'' empty_disk)
          ''C:/x/doc/doc.html'' no_locks\<rparr>))
   \<and> os_Create (held_by_another ''C:/x/doc/doc.html''
                  (with_file ''C:/x/doc/doc.html'' ''old'' empty_disk))
         ''C:/x/doc/doc.html'' \<noteq> None
   \<and> (case handle_save_file windows
            (held_by_another ''C:/x/doc/doc.html''
               (with_file ''C:/x/doc/doc.html'' ''old'' empty_disk))
            (Some \<lparr>form_filePath = ''C:/x/doc/doc.html'', form_html = Some ''<p>new</p>'',
                   form_assets = []\<rparr>)
            (server_init\<lparr>locks :=
               lockFile windows (with_file ''C:/x/doc/doc.html'' ''old'' empty_disk)
                 ''C:/x/doc/doc.html'' no_locks\<rparr>) of
         (resp, s', effs) \<Rightarrow>
           status resp = 500 \<and> \<not> locked windows ''C:/x/doc/doc.html'' (locks s'))"
proof -
  let ?p = "''C:/x/doc/doc.html''"
  let ?V = "with_file ?p ''old'' empty_disk"
  let ?W = "held_by_another ?p ?V"
  let ?fm = "\<lparr>form_filePath = ?p, form_html = Some ''<p>new</p>'', form_assets = []\<rparr>"
  let ?s = "server_init\<lparr>locks := lockFile windows ?V ?p no_locks\<rparr>"
  have lk: "locked windows ?p (locks ?s)"
    by (simp add: locked_lockFile with_file_def)
  have cr: "os_Create ?W ?p = Some sharing_violation" by (simp add: held_by_another_def)
  have op: "os_Open ?W ?p \<noteq> None" by (simp add: held_by_another_def)
  have run: "handle_save_file windows ?W (Some ?fm) ?s =
      (\<lparr>status = 500,
        content = ErrorJson (''Failed to write file: '' @ sharing_violation @
                    ''. The file might be open in another program.'')\<rparr>,
       ?s\<lparr>locks := lockFile windows ?W ?p (unlockFile windows ?p (locks ?s))\<rparr>, [])"
    by (simp add: save_write_stage[where finalDir = "windows_FromSlash ''C:/x/doc''"
          and finalHtmlPath = ?p and mkdir = None and doc = "''<p>new</p>''"]
        placement_in_place cr)
  have after: "\<not> locked windows ?p (lockFile windows ?W ?p (unlockFile windows ?p (locks ?s)))"
    using op by (simp add: locked_lockFile not_locked_unlockFile)
  from lk cr after show ?thesis by (simp add: run)
qed

section \<open>Properties of the start-up\<close>

text \<open>
  Claim C6, as the code has it. When the port cannot be bound the process is the
  secondary. With a launch argument that names an existing file that is not a directory
  and can be read, it posts the absolute path and the base64 of the content to the
  primary's \<open>/api/cli-handover\<close> with a timeout of two seconds, once, whatever the post
  returns. Without a launch argument it opens the default browser at the primary's root
  URL. In every case it neither serves HTTP nor runs the tray loop.
\<close>

theorem secondary_hands_over_once:
  assumes "net_Listen W listenAddr \<noteq> None"
  shows "(length Args > 1
          \<and> os_Stat W (filepath_Abs W (Args ! 1)) = Inr False
          \<and> os_ReadFile W (filepath_Abs W (Args ! 1)) = Inr fileContent \<longrightarrow>
            fst (main P W Args rnd) =
              [HttpPost (targetUrl @ ''/api/cli-handover'') ''application/json''
                 \<lparr>FileName = filepath_Abs W (Args ! 1), Data = EncodeToString fileContent\<rparr> 2])
         \<and> (length Args \<le> 1 \<longrightarrow> fst (main P W Args rnd) = [OpenDefaultBrowser targetUrl])
         \<and> Serve \<notin> set (fst (main P W Args rnd))
         \<and> RunTrayApp u \<notin> set (fst (main P W Args rnd))
         \<and> length (fst (main P W Args rnd)) \<le> 1"
  using assms
  by (auto simp: main_def Let_def split: option.splits sum.splits)


theorem secondary_hands_over_once_witness:
  "net_Listen (with_file (windows_FromSlash ''C:/docs/a.md'') ''hello'' (port_taken empty_disk))
      listenAddr \<noteq> None
   \<and> length [''WinHTML-Editor.exe'', windows_FromSlash ''C:/docs/a.md''] > 1
   \<and> fst (main windows
          (with_file (windows_FromSlash ''C:/docs/a.md'') ''hello'' (port_taken empty_disk))
          [''WinHTML-Editor.exe'', windows_FromSlash ''C:/docs/a.md''] ''12345678'') =
       [HttpPost ''http://127.0.0.1:58888/api/cli-handover'' ''application/json''
          \<lparr>FileName = windows_FromSlash ''C:/docs/a.md'', Data = ''aGVsbG8=''\<rparr> 2]
   \<and> length [''WinHTML-Editor.exe''] \<le> 1
   \<and> fst (main windows
          (with_file (windows_FromSlash ''C:/docs/a.md'') ''hello'' (port_taken empty_disk))
          [''WinHTML-Editor.exe''] ''12345678'') =
       [OpenDefaultBrowser ''http://127.0.0.1:58888'']"
proof -
  let ?f = "windows_FromSlash ''C:/docs/a.md''"
  let ?V = "with_file ?f ''hello'' (port_taken empty_disk)"
  have l: "net_Listen ?V listenAddr \<noteq> None"
    by (simp add: with_file_def port_taken_def)
  have cl: "windows_Clean ?f = ?f" by code_simp
  have ab: "filepath_Abs ?V ([''WinHTML-Editor.exe'', ?f] ! 1) = ?f"
    by (simp add: with_file_def port_taken_def empty_disk_def cl)
  have st: "os_Stat ?V (filepath_Abs ?V ([''WinHTML-Editor.exe'', ?f] ! 1)) = Inr False"
    unfolding ab by (simp add: with_file_def)
  have rd: "os_ReadFile ?V (filepath_Abs ?V ([''WinHTML-Editor.exe'', ?f] ! 1)) = Inr ''hello''"
    unfolding ab by (simp add: with_file_def)
  have en: "EncodeToString ''hello'' = ''aGVsbG8=''" by code_simp
  have tu: "targetUrl = ''http://127.0.0.1:58888''" by (simp add: targetUrl_def APP_PORT_def)
  note a = secondary_hands_over_once[OF l, where Args = "[''WinHTML-Editor.exe'', ?f]"
      and fileContent = "''hello''" and P = windows and rnd = "''12345678''"]
  note b = secondary_hands_over_once[OF l, where Args = "[''WinHTML-Editor.exe'']"
      and P = windows and rnd = "''12345678''"]
  have len: "length [''WinHTML-Editor.exe'', ?f] > 1" by simp
  have h: "length [''WinHTML-Editor.exe'', ?f] > 1
      \<and> os_Stat ?V (filepath_Abs ?V ([''WinHTML-Editor.exe'', ?f] ! 1)) = Inr False
      \<and> os_ReadFile ?V (filepath_Abs ?V ([''WinHTML-Editor.exe'', ?f] ! 1)) = Inr ''hello''"
    using len st rd by (intro conjI)
  have 1: "fst (main windows ?V [''WinHTML-Editor.exe'', ?f] ''12345678'') =
       [HttpPost (''http://127.0.0.1:58888'' @ ''/api/cli-handover'') ''application/json''
          \<lparr>FileName = ?f, Data = ''aGVsbG8=''\<rparr> 2]"
    using mp[OF conjunct1[OF a] h] unfolding ab en tu .
  have len1: "length [''WinHTML-Editor.exe''] \<le> 1" by simp
  have 2: "fst (main windows ?V [''WinHTML-Editor.exe''] ''12345678'') =
       [OpenDefaultBrowser ''http://127.0.0.1:58888'']"
    using mp[OF conjunct1[OF conjunct2[OF b]] len1] unfolding tu .
  from l 1 2 show ?thesis by simp
qed

text \<open>
  A launch argument that names an existing file which cannot be read: the secondary
  posts nothing and exits.
\<close>

theorem secondary_unreadable_file_counterexample:
  "net_Listen (unreadable_file (windows_FromSlash ''C:/docs/a.md'') (port_taken empty_disk))
      listenAddr \<noteq> None
   \<and> length [''WinHTML-Editor.exe'', windows_FromSlash ''C:/docs/a.md''] > 1
   \<and> os_Stat (unreadable_file (windows_FromSlash ''C:/docs/a.md'') (port_taken empty_disk))
         (filepath_Abs (unreadable_file (windows_FromSlash ''C:/docs/a.md'') (port_taken empty_disk))
            ([''WinHTML-Editor.exe'', windows_FromSlash ''C:/docs/a.md''] ! 1)) = Inr False
   \<and> fst (main windows (unreadable_file (windows_FromSlash ''C:/docs/a.md'') (port_taken empty_disk))
          [''WinHTML-Editor.exe'', windows_FromSlash ''C:/docs/a.md''] ''12345678'') = []"
proof -
  have cl: "windows_Clean (windows_FromSlash ''C:/docs/a.md'') = windows_FromSlash ''C:/docs/a.md''"
    by code_simp
  show ?thesis
    by (simp add: main_def unreadable_file_def port_taken_def empty_disk_def cl)
qed

section \<open>Properties of the image inlining\<close>









text \<open>
  For comparison, the same document beside a readable \<open>pic.png\<close> of three bytes 00 01 02
  (data that \<open>http.DetectContentType\<close> calls \<open>application/octet-stream\<close>): the last tag
  gets the data URI, the rest is as before.
\<close>

lemma inlineLocalImages_inlines_readable_file:
  "inlineLocalImages windows
     (with_file (windows_FromSlash ''C:/d/pic.png'') [CHR 0x00, CHR 0x01, CHR 0x02] empty_disk)
     ''<p>x</p><img src='http://h/a.png'><IMG alt='n'><img src='pic.png'>y'' ''C:/d/doc.html''
   = ''<p>x</p><img src='http://h/a.png'><IMG alt='n'><img src='data:application/octet-stream;base64,AAEC'>y''"
  by code_simp

end
